theory Spec2Isabelle
  imports Main "HOL-Library.Word" "HOL-Library.Sublist"
begin

section \<open>Data model\<close>

text \<open>
  The entry points of \<^verbatim>\<open>WFObjectToString.cpp\<close> work on objects (\<^verbatim>\<open>WFObject\<close>), on
  collision graphs (\<^verbatim>\<open>Graph\<close>) and on vectors of \<^verbatim>\<open>unsigned int\<close>. An \<^verbatim>\<open>unsigned int\<close>
  is a 32-bit word; a \<^verbatim>\<open>size_t\<close> is a natural number with the 64-bit wrap-around of
  its subtraction written out.
\<close>

type_synonym u32 = "32 word"

text \<open>
  Modelled from the spec: the class \<^verbatim>\<open>Graph\<close> (Graph.h is not among the sources). The
  compact adjacency structure is an interval/offset array of size N+1 and two parallel
  arrays with the endpoints of every stored edge; \<^verbatim>\<open>numNodes\<close> and \<^verbatim>\<open>numEdges\<close> are its
  accessors.
\<close>

record Graph =
  intervals :: "u32 list"
  adjacencyKeys :: "u32 list"
  adjacencyVals :: "u32 list"

definition numNodes :: "Graph \<Rightarrow> nat" where
  "numNodes g = length (intervals g) - 1"

definition numEdges :: "Graph \<Rightarrow> nat" where
  "numEdges g = length (adjacencyVals g)"

text \<open>
  Of a \<^verbatim>\<open>WFObject\<close> the entry points read \<^verbatim>\<open>objects[nodeId].x\<close> (the first face of a
  part) and \<^verbatim>\<open>faces[faceId].material\<close>; everything else (vertices, poses) is the
  component \<open>geometry\<close>, which only the collaborators look at.
\<close>

record Face =
  material :: nat

record 'p WFObject =
  objects :: "(int \<times> int) list"
  faces :: "Face list"
  geometry :: 'p

section \<open>Strings of the standard library\<close>

text \<open>
  \<^verbatim>\<open>find_last_of\<close> and \<^verbatim>\<open>find_first_of\<close> return the position of the last (first)
  character of the string that occurs in the given set, \<open>None\<close> standing for
  \<^verbatim>\<open>npos\<close>. \<^verbatim>\<open>substr(pos, count)\<close> is used with \<open>pos \<le> size\<close> only and clips the count
  to the end of the string; the count \<^verbatim>\<open>npos\<close> (\<open>None\<close>) takes the rest of the string.
  \<^verbatim>\<open>size_t_sub\<close> is the subtraction of \<^verbatim>\<open>size_t\<close>, which wraps around at \<open>2 ^ 64\<close>.
\<close>

definition find_last_of :: "string \<Rightarrow> string \<Rightarrow> nat option" where
  "find_last_of s cs =
     (case filter (\<lambda>i. s ! i \<in> set cs) (rev [0..<length s]) of
        [] \<Rightarrow> None
      | i # _ \<Rightarrow> Some i)"

definition find_first_of :: "string \<Rightarrow> string \<Rightarrow> nat option" where
  "find_first_of s cs =
     (case filter (\<lambda>i. s ! i \<in> set cs) [0..<length s] of
        [] \<Rightarrow> None
      | i # _ \<Rightarrow> Some i)"

fun substr :: "string \<Rightarrow> nat \<Rightarrow> nat option \<Rightarrow> string" where
  "substr s pos None = drop pos s"
| "substr s pos (Some count) = take count (drop pos s)"

definition size_t_sub :: "nat \<Rightarrow> nat \<Rightarrow> nat" where
  "size_t_sub a b = (a + 2 ^ 64 - b mod 2 ^ 64) mod 2 ^ 64"

definition path_separators :: string where
  "path_separators = [CHR ''/'', CHR 0x5C]"

definition newline :: char where
  "newline = CHR 0x0A"

section \<open>The repair entry point \<^verbatim>\<open>fixVariation\<close>\<close>

text \<open>
  The classes \<^verbatim>\<open>CollisionDetector\<close>, \<^verbatim>\<open>GrammarCheck\<close>, \<^verbatim>\<open>Wiggle\<close>,
  \<^verbatim>\<open>WFObjectFileExporter\<close> and the functions \<^verbatim>\<open>WFObject::read\<close> and \<^verbatim>\<open>getDirName\<close> are
  not among the sources: \<^verbatim>\<open>fixVariation\<close> takes them as parameters. \<open>'c\<close> is the state
  of a \<^verbatim>\<open>GrammarCheck\<close> (its rule set), \<open>'w\<close> the state of a \<^verbatim>\<open>Wiggle\<close> (its templates,
  \<^verbatim>\<open>numCorrections\<close> and \<^verbatim>\<open>debugOutputLocalFrames\<close>). The detector is the one the entry
  points call, with tolerance \<^verbatim>\<open>0.0f\<close>. A pass of the solver returns the solver and
  the object it has moved.
\<close>

record 'p detector_env =
  WFObject_read :: "string \<Rightarrow> 'p WFObject"
  computeCollisionGraph :: "'p WFObject \<Rightarrow> Graph"

record ('p, 'c, 'w) repair_env = "'p detector_env" +
  grammarCheck_new :: 'c
  grammarCheck_init :: "'c \<Rightarrow> 'p WFObject \<Rightarrow> u32 list \<Rightarrow> u32 list \<Rightarrow> 'c"
  grammarCheck_check :: "'c \<Rightarrow> u32 list \<Rightarrow> u32 list \<Rightarrow> u32 list \<Rightarrow> bool"
  wiggle_new :: 'w
  wiggle_init :: "'w \<Rightarrow> 'p WFObject \<Rightarrow> Graph \<Rightarrow> 'w"
  fixRelativeTransformations :: "'w \<Rightarrow> 'p WFObject \<Rightarrow> Graph \<Rightarrow> 'w \<times> 'p WFObject"
  numCorrections :: "'w \<Rightarrow> u32"
  debugOutputLocalFrames :: "'w \<Rightarrow> bool"
  getDirName :: "string \<Rightarrow> string"

text \<open>
  The loop that fills \<^verbatim>\<open>nodeTypes\<close>: the material of the first face of every part. A
  read outside \<^verbatim>\<open>objects\<close> or \<^verbatim>\<open>faces\<close> is undefined behaviour in the source; the model
  returns \<open>None\<close> there.
\<close>

definition nodeType :: "'p WFObject \<Rightarrow> nat \<Rightarrow> u32 option" where
  "nodeType obj nodeId =
     (if nodeId < length (objects obj) then
        (let faceId = fst (objects obj ! nodeId) in
         if 0 \<le> faceId \<and> nat faceId < length (faces obj)
         then Some (of_nat (material (faces obj ! nat faceId)))
         else None)
      else None)"

definition nodeTypes_of :: "'p WFObject \<Rightarrow> Graph \<Rightarrow> u32 list option" where
  "nodeTypes_of obj g = those (map (nodeType obj) [0..<numNodes g])"

text \<open>
  The pass loop \<^verbatim>\<open>for (size_t i = 0; i < 128u; ++i)\<close>, with the number of passes
  still allowed as the recursion argument. It returns the solver, the object and the
  value of \<^verbatim>\<open>numCorrections\<close> read after each pass that ran, in order.
\<close>

fun wiggle_loop ::
  "('p, 'c, 'w) repair_env \<Rightarrow> nat \<Rightarrow> 'w \<Rightarrow> 'p WFObject \<Rightarrow> Graph \<Rightarrow> 'w \<times> 'p WFObject \<times> u32 list"
where
  "wiggle_loop K 0 w obj g = (w, obj, [])"
| "wiggle_loop K (Suc n) w obj g =
     (case fixRelativeTransformations K w obj g of (w', obj') \<Rightarrow>
        if numCorrections K w' = 0 then (w', obj', [numCorrections K w'])
        else (case wiggle_loop K n w' obj' g of (w'', obj'', ps) \<Rightarrow>
                (w'', obj'', numCorrections K w' # ps)))"

text \<open>
  The name of the written file: \<^verbatim>\<open>outFileName.substr(0, size - 5)\<close> when there is no
  separator, \<^verbatim>\<open>outFileName.substr(p + 1, size - p - 5)\<close> when the last separator is at
  \<open>p\<close>; both counts are computed in \<^verbatim>\<open>size_t\<close>.
\<close>

definition outFileName_of :: "string \<Rightarrow> string" where
  "outFileName_of aOutFileName =
     (case find_last_of aOutFileName path_separators of
        None \<Rightarrow> substr aOutFileName 0 (Some (size_t_sub (length aOutFileName) 5))
      | Some p \<Rightarrow>
          substr aOutFileName (p + 1)
            (Some (size_t_sub (size_t_sub (length aOutFileName) p) 5)))"

text \<open>
  What a call of \<^verbatim>\<open>fixVariation\<close> leaves behind: the returned status, the target
  object \<^verbatim>\<open>obj3\<close> as it is at the return, the \<^verbatim>\<open>numCorrections\<close> of every pass that ran,
  and the files handed to \<^verbatim>\<open>WFObjectFileExporter\<close> (path and object).
\<close>

record 'p repair_result =
  status :: int
  target :: "'p WFObject"
  passes :: "u32 list"
  written :: "(string \<times> 'p WFObject) list"

definition fixVariation ::
  "('p, 'c, 'w) repair_env \<Rightarrow> string \<Rightarrow> string \<Rightarrow> string \<Rightarrow> string \<Rightarrow> 'p repair_result option"
where
  "fixVariation K aFileName1 aFileName2 aFileName3 aOutFileName =
     (let obj1 = WFObject_read K aFileName1;
          obj2 = WFObject_read K aFileName2;
          obj3 = WFObject_read K aFileName3;
          graph1 = computeCollisionGraph K obj1;
          graph2 = computeCollisionGraph K obj2;
          graph3 = computeCollisionGraph K obj3;
          grammarCheck =
            grammarCheck_init K
              (grammarCheck_init K (grammarCheck_new K) obj1 (intervals graph1) (adjacencyVals graph1))
              obj2 (intervals graph2) (adjacencyVals graph2)
      in case nodeTypes_of obj3 graph3 of
           None \<Rightarrow> None
         | Some nodeTypes \<Rightarrow>
             if \<not> grammarCheck_check K grammarCheck (intervals graph3) (adjacencyVals graph3) nodeTypes
             then Some \<lparr>status = 1, target = obj3, passes = [], written = []\<rparr>
             else
               (let wiggle = wiggle_init K (wiggle_init K (wiggle_new K) obj1 graph1) obj2 graph2
                in case wiggle_loop K 128 wiggle obj3 graph3 of (wiggle', obj3', ps) \<Rightarrow>
                     (let modifiedGraph = computeCollisionGraph K obj3'
                      in if debugOutputLocalFrames K wiggle'
                            \<or> grammarCheck_check K grammarCheck
                                 (intervals modifiedGraph) (adjacencyVals modifiedGraph) nodeTypes
                         then Some \<lparr>status = 0, target = obj3', passes = ps,
                                written = [(getDirName K aFileName3 @ outFileName_of aOutFileName, obj3')]\<rparr>
                         else Some \<lparr>status = 2, target = obj3', passes = ps, written = []\<rparr>)))"

text \<open>
  Names for what a call computes on its way: the object after \<open>k\<close> passes of the
  solver, the rule set induced from the two exemplars, the solver with the templates
  of the two exemplars, and the grammar check of an object's collision graph against
  that rule set.
\<close>

fun run_passes ::
  "('p, 'c, 'w) repair_env \<Rightarrow> nat \<Rightarrow> 'w \<Rightarrow> 'p WFObject \<Rightarrow> Graph \<Rightarrow> 'w \<times> 'p WFObject"
where
  "run_passes K 0 w obj g = (w, obj)"
| "run_passes K (Suc k) w obj g =
     (case fixRelativeTransformations K w obj g of (w', obj') \<Rightarrow> run_passes K k w' obj' g)"

definition induced_grammar :: "('p, 'c, 'w) repair_env \<Rightarrow> string \<Rightarrow> string \<Rightarrow> 'c" where
  "induced_grammar K aFileName1 aFileName2 =
     (let obj1 = WFObject_read K aFileName1;
          obj2 = WFObject_read K aFileName2;
          graph1 = computeCollisionGraph K obj1;
          graph2 = computeCollisionGraph K obj2
      in grammarCheck_init K
           (grammarCheck_init K (grammarCheck_new K) obj1 (intervals graph1) (adjacencyVals graph1))
           obj2 (intervals graph2) (adjacencyVals graph2))"

definition exemplar_wiggle :: "('p, 'c, 'w) repair_env \<Rightarrow> string \<Rightarrow> string \<Rightarrow> 'w" where
  "exemplar_wiggle K aFileName1 aFileName2 =
     (let obj1 = WFObject_read K aFileName1;
          obj2 = WFObject_read K aFileName2
      in wiggle_init K
           (wiggle_init K (wiggle_new K) obj1 (computeCollisionGraph K obj1))
           obj2 (computeCollisionGraph K obj2))"

definition conforms ::
  "('p, 'c, 'w) repair_env \<Rightarrow> 'c \<Rightarrow> u32 list \<Rightarrow> 'p WFObject \<Rightarrow> bool"
where
  "conforms K grammar nodeTypes obj =
     grammarCheck_check K grammar
       (intervals (computeCollisionGraph K obj)) (adjacencyVals (computeCollisionGraph K obj))
       nodeTypes"

definition target_nodeTypes :: "('p, 'c, 'w) repair_env \<Rightarrow> string \<Rightarrow> u32 list option" where
  "target_nodeTypes K aFileName3 =
     nodeTypes_of (WFObject_read K aFileName3)
       (computeCollisionGraph K (WFObject_read K aFileName3))"

section \<open>The string-returning entry points\<close>

text \<open>
  \<^verbatim>\<open>char * outputString\<close> is the one variable of the process that outlives a call.
  The heap is the list of the blocks that are allocated and not freed, each with its
  address and its text; \<open>exports\<close> are the calls of
  \<^verbatim>\<open>CollisionGraphExporter::exportCollisionGraph\<close> so far, and \<open>rng\<close> is the state of
  the random source that \<^verbatim>\<open>GraphToStringConverter\<close> and \<^verbatim>\<open>VariationGenerator\<close> draw from.
  Texts are C strings, without a NUL character inside.
\<close>

record ('p, 'r) process =
  blocks :: "(nat \<times> string) list"
  fresh :: nat
  outputString :: "nat option"
  exports :: "(string \<times> 'p WFObject \<times> Graph) list"
  rng :: 'r

datatype char_ptr = NullPtr | StringLiteral string | HeapBlock nat

definition free_block :: "nat \<Rightarrow> ('p, 'r) process \<Rightarrow> ('p, 'r) process" where
  "free_block a st = st\<lparr>blocks := filter (\<lambda>b. fst b \<noteq> a) (blocks st)\<rparr>"

definition new_chars :: "string \<Rightarrow> ('p, 'r) process \<Rightarrow> nat \<times> ('p, 'r) process" where
  "new_chars txt st =
     (fresh st, st\<lparr>blocks := (fresh st, txt) # blocks st, fresh := Suc (fresh st)\<rparr>)"

definition allocated :: "('p, 'r) process \<Rightarrow> nat \<Rightarrow> bool" where
  "allocated st a = (a \<in> fst ` set (blocks st))"

definition text_at :: "('p, 'r) process \<Rightarrow> char_ptr \<Rightarrow> string option" where
  "text_at st p =
     (case p of
        NullPtr \<Rightarrow> None
      | StringLiteral txt \<Rightarrow> Some txt
      | HeapBlock a \<Rightarrow> map_of (blocks st) a)"

text \<open>
  \<^verbatim>\<open>Graph::isConnected\<close>, \<^verbatim>\<open>GraphToStringConverter\<close> and \<^verbatim>\<open>VariationGenerator\<close> are not
  among the sources and are parameters. A call of the converter returns the pair of
  the structural text and the node-id text, and the random source after the draw. The
  generator is called with its two flags \<^verbatim>\<open>writeVariationGraphs\<close> and
  \<^verbatim>\<open>writeVariations\<close>.
\<close>

record ('p, 'r) string_env = "'p detector_env" +
  isConnected :: "Graph \<Rightarrow> bool"
  converter :: "'r \<Rightarrow> 'p WFObject \<Rightarrow> Graph \<Rightarrow> (string \<times> string) \<times> 'r"
  genRandVariation ::
    "bool \<Rightarrow> bool \<Rightarrow> 'r \<Rightarrow> string \<Rightarrow> string \<Rightarrow> 'p WFObject \<Rightarrow> 'p WFObject \<Rightarrow> Graph \<Rightarrow> Graph
       \<Rightarrow> string \<times> 'r"

definition exportCollisionGraph ::
  "string \<Rightarrow> 'p WFObject \<Rightarrow> Graph \<Rightarrow> ('p, 'r) process \<Rightarrow> ('p, 'r) process"
where
  "exportCollisionGraph aFilename obj graph st =
     st\<lparr>exports := exports st @ [(aFilename, obj, graph)]\<rparr>"

text \<open>
  The two statements \<^verbatim>\<open>if (outputString != NULL) free(outputString);\<close> and
  \<^verbatim>\<open>outputString = new char[result.length() + 1]; strcpy(outputString, result.c_str());\<close>
\<close>

definition free_outputString :: "('p, 'r) process \<Rightarrow> ('p, 'r) process" where
  "free_outputString st =
     (case outputString st of None \<Rightarrow> st | Some a \<Rightarrow> free_block a st)"

definition assign_outputString :: "string \<Rightarrow> ('p, 'r) process \<Rightarrow> ('p, 'r) process" where
  "assign_outputString result st =
     (case new_chars result st of (a, st') \<Rightarrow> st'\<lparr>outputString := Some a\<rparr>)"

definition return_outputString :: "('p, 'r) process \<Rightarrow> char_ptr \<times> ('p, 'r) process" where
  "return_outputString st =
     (case outputString st of
        Some a \<Rightarrow> (HeapBlock a, st)
      | None \<Rightarrow> (NullPtr, st))"

definition WFObjectToString ::
  "('p, 'r, 'z) string_env_scheme \<Rightarrow> ('p, 'r) process \<Rightarrow> string \<Rightarrow> char_ptr \<times> ('p, 'r) process"
where
  "WFObjectToString K st aFilename =
     (let obj = WFObject_read K aFilename;
          graph = computeCollisionGraph K obj;
          st1 = exportCollisionGraph aFilename obj graph st
      in case converter K (rng st1) obj graph of (sample, r) \<Rightarrow>
           (let result = fst sample;
                result = substr result 0 (find_first_of result [newline]);
                st2 = free_outputString (st1\<lparr>rng := r\<rparr>);
                st3 = assign_outputString result st2
            in return_outputString st3))"

text \<open>
  The loop \<^verbatim>\<open>for (size_t i = 0; i < 10; ++i)\<close> of \<^verbatim>\<open>WFObjectToStrings\<close>: each round
  draws a new sample and appends its two texts to \<^verbatim>\<open>strings_nodeIds\<close>.
\<close>

fun sample_loop ::
  "('p, 'r, 'z) string_env_scheme \<Rightarrow> nat \<Rightarrow> 'p WFObject \<Rightarrow> Graph \<Rightarrow> (string \<times> string) \<times> 'r
     \<Rightarrow> (string \<times> string) \<times> 'r"
where
  "sample_loop K 0 obj graph acc = acc"
| "sample_loop K (Suc n) obj graph acc =
     (case converter K (snd acc) obj graph of (new_sample, r) \<Rightarrow>
        sample_loop K n obj graph
          ((fst (fst acc) @ fst new_sample, snd (fst acc) @ snd new_sample), r))"

definition WFObjectToStrings ::
  "('p, 'r, 'z) string_env_scheme \<Rightarrow> ('p, 'r) process \<Rightarrow> string \<Rightarrow> bool
     \<Rightarrow> char_ptr \<times> ('p, 'r) process"
where
  "WFObjectToStrings K st aFilename aAppendNodeIds =
     (let obj = WFObject_read K aFilename;
          graph = computeCollisionGraph K obj;
          st1 = exportCollisionGraph aFilename obj graph st
      in if \<not> isConnected K graph then (StringLiteral [], st1)
         else
           (case sample_loop K 10 obj graph (converter K (rng st1) obj graph) of
              (strings_nodeIds, r) \<Rightarrow>
                (let result = fst strings_nodeIds;
                     result =
                       (if aAppendNodeIds
                        then result @ substr (snd strings_nodeIds) 0
                                        (find_last_of (snd strings_nodeIds) [newline])
                        else result);
                     st2 = free_outputString (st1\<lparr>rng := r\<rparr>);
                     st3 = assign_outputString result st2
                 in return_outputString st3)))"

definition WFObjectRandomVariations ::
  "('p, 'r, 'z) string_env_scheme \<Rightarrow> ('p, 'r) process \<Rightarrow> string \<Rightarrow> string
     \<Rightarrow> char_ptr \<times> ('p, 'r) process"
where
  "WFObjectRandomVariations K st aFileName1 aFileName2 =
     (let obj1 = WFObject_read K aFileName1;
          obj2 = WFObject_read K aFileName2;
          graph1 = computeCollisionGraph K obj1;
          graph2 = computeCollisionGraph K obj2
      in case genRandVariation K False True (rng st) aFileName1 aFileName2 obj1 obj2 graph1 graph2 of
           (result, r) \<Rightarrow>
             return_outputString (assign_outputString result (st\<lparr>rng := r\<rparr>)))"

text \<open>
  The samples the converter gives on \<open>n\<close> successive calls, starting from the random
  source \<open>r\<close>: the first is the base sample, the others are the resamples.
\<close>

fun draws ::
  "('p, 'r, 'z) string_env_scheme \<Rightarrow> nat \<Rightarrow> 'r \<Rightarrow> 'p WFObject \<Rightarrow> Graph \<Rightarrow> (string \<times> string) list"
where
  "draws K 0 r obj graph = []"
| "draws K (Suc n) r obj graph =
     fst (converter K r obj graph) # draws K n (snd (converter K r obj graph)) obj graph"

text \<open>The text that a returned pointer points to, once the call has returned.\<close>

definition returned_text :: "char_ptr \<times> ('p, 'r) process \<Rightarrow> string option" where
  "returned_text res = text_at (snd res) (fst res)"

section \<open>Conversions of the graph\<close>

text \<open>
  Modelled from the spec: \<^verbatim>\<open>Graph::fromAdjacencyMatrix\<close>, \<^verbatim>\<open>Graph::toAdjacencyMatrix\<close>
  and \<^verbatim>\<open>Graph::fromAdjacencyList\<close> (Graph.cpp is not among the sources; only the
  test \<^verbatim>\<open>testGraphConstruction\<close>, which calls the first two, is). A dense matrix is the
  row-major vector of its \<open>n * n\<close> entries. Every 1 at \<open>(i, j)\<close> becomes a stored edge,
  and \<open>intervals ! i\<close> is the number of stored edges whose first endpoint is below \<open>i\<close>.
  The way back writes a 1 at every stored edge into a matrix of zeros. The
  adjacency-list constructor takes the unsorted pairs held in the two adjacency arrays;
  when \<open>directed\<close> is false it adds the mirror of every pair whose mirror is missing.
\<close>

definition matrix_edges :: "u32 list \<Rightarrow> nat \<Rightarrow> (nat \<times> nat) list" where
  "matrix_edges M n =
     concat (map (\<lambda>i. map (\<lambda>j. (i, j)) (filter (\<lambda>j. M ! (i * n + j) = 1) [0..<n])) [0..<n])"

definition offsets :: "nat list \<Rightarrow> nat \<Rightarrow> u32 list" where
  "offsets ks n = map (\<lambda>i. of_nat (length (filter (\<lambda>k. k < i) ks))) [0..<Suc n]"

definition fromAdjacencyMatrix :: "u32 list \<Rightarrow> nat \<Rightarrow> Graph" where
  "fromAdjacencyMatrix M n =
     (let es = matrix_edges M n
      in \<lparr>intervals = offsets (map fst es) n,
          adjacencyKeys = map (\<lambda>e. of_nat (fst e)) es,
          adjacencyVals = map (\<lambda>e. of_nat (snd e)) es\<rparr>)"

definition toAdjacencyMatrix :: "Graph \<Rightarrow> u32 list \<times> nat" where
  "toAdjacencyMatrix g =
     (let n = numNodes g
      in (fold (\<lambda>e M. M[unat (fst e) * n + unat (snd e) := 1])
               (zip (adjacencyKeys g) (adjacencyVals g))
               (replicate (n * n) 0),
          n))"

definition fromAdjacencyList :: "Graph \<Rightarrow> nat \<Rightarrow> bool \<Rightarrow> Graph" where
  "fromAdjacencyList g nodeCount directed =
     (let pairs = zip (adjacencyKeys g) (adjacencyVals g);
          mirrors = remdups (filter (\<lambda>e. e \<notin> set pairs) (map (\<lambda>e. (snd e, fst e)) pairs));
          es = sort_key fst (if directed then pairs else pairs @ mirrors)
      in \<lparr>intervals = offsets (map (\<lambda>e. unat (fst e)) es) nodeCount,
          adjacencyKeys = map fst es,
          adjacencyVals = map snd es\<rparr>)"

text \<open>The matrices the round-trip law speaks about.\<close>

definition zero_one :: "u32 list \<Rightarrow> bool" where
  "zero_one M = list_all (\<lambda>x. x = 0 \<or> x = 1) M"

definition symmetric :: "u32 list \<Rightarrow> nat \<Rightarrow> bool" where
  "symmetric M n =
     list_all (\<lambda>i. list_all (\<lambda>j. M ! (i * n + j) = M ! (j * n + i)) [0..<n]) [0..<n]"

text \<open>
  The test \<^verbatim>\<open>testGraphConstruction\<close>, as the first version of the file has it. Its
  argument is an \<^verbatim>\<open>int\<close>, and the size of the matrix is the \<^verbatim>\<open>int\<close> product
  \<^verbatim>\<open>aGraphSize * aGraphSize\<close>: a negative size (which the loops compare as a huge
  \<^verbatim>\<open>size_t\<close>) and a product beyond \<open>2 ^ 31 - 1\<close> are undefined behaviour, \<open>None\<close> in the
  model. Otherwise the test fills a matrix of zeros with a 1 at \<open>(j, i)\<close> and at
  \<open>(i, j)\<close> for every pair \<open>j < i\<close> with \<^verbatim>\<open>rand() / RAND_MAX > 0.5f\<close> (an integer
  division), converts it to a graph and back, writes a line to \<^verbatim>\<open>std::cerr\<close> for every
  position at which the two matrices differ, and returns 0. The values of \<^verbatim>\<open>rand()\<close>
  are the parameter \<open>rnd\<close>, one for each pair; the result is the returned status with
  the positions reported.
\<close>

definition adjacencyMatrixHost :: "(nat \<Rightarrow> nat \<Rightarrow> nat) \<Rightarrow> nat \<Rightarrow> nat \<Rightarrow> u32 list" where
  "adjacencyMatrixHost rnd rand_max n =
     fold (\<lambda>(i, j) M.
             if 0 < rnd i j div rand_max
             then M[j * n + i := 1, i * n + j := 1]
             else M)
          (concat (map (\<lambda>i. map (\<lambda>j. (i, j)) [0..<i]) [0..<n]))
          (replicate (n * n) 0)"

definition testGraphConstruction ::
  "(nat \<Rightarrow> nat \<Rightarrow> nat) \<Rightarrow> nat \<Rightarrow> int \<Rightarrow> (int \<times> nat list) option"
where
  "testGraphConstruction rnd rand_max aGraphSize =
     (if aGraphSize < 0 \<or> 2 ^ 31 \<le> aGraphSize * aGraphSize then None
      else
        (let n = nat aGraphSize;
             host = adjacencyMatrixHost rnd rand_max n;
             testGraph = fromAdjacencyMatrix host n;
             device = fst (toAdjacencyMatrix testGraph)
         in Some (0, filter (\<lambda>i. device ! i \<noteq> host ! i) [0..<n * n])))"

section \<open>The entry point \<^verbatim>\<open>StringToWFObject\<close>\<close>

text \<open>
  \<^verbatim>\<open>std::getline(ss, str, '\n')\<close> gives the text before the next line break and leaves
  the stream after it; at the end of the stream the line is empty.
\<close>

definition getline :: "string \<Rightarrow> string \<times> string" where
  "getline ss =
     (takeWhile (\<lambda>c. c \<noteq> newline) ss, drop 1 (dropWhile (\<lambda>c. c \<noteq> newline) ss))"

text \<open>
  \<^verbatim>\<open>stream >> x\<close> for an \<^verbatim>\<open>unsigned int\<close>: white space is skipped, then an optional
  sign and a run of decimal digits are read. The extraction fails, and the loop that
  tests it ends, when there is no digit or when the number does not fit 32 bits; a
  number after a minus sign is negated in 32 bits. The result is the value and the
  rest of the stream.
\<close>

definition isspace :: "char \<Rightarrow> bool" where
  "isspace c = (c \<in> set [CHR '' '', CHR 0x09, CHR 0x0A, CHR 0x0B, CHR 0x0C, CHR 0x0D])"

definition isdigit :: "char \<Rightarrow> bool" where
  "isdigit c = (c \<in> set ''0123456789'')"

definition digit_value :: "char \<Rightarrow> int" where
  "digit_value c = int (length (takeWhile (\<lambda>d. d \<noteq> c) ''0123456789''))"

definition decimal :: "string \<Rightarrow> int" where
  "decimal ds = foldl (\<lambda>a c. 10 * a + digit_value c) 0 ds"

definition read_uint :: "string \<Rightarrow> (u32 \<times> string) option" where
  "read_uint s =
     (let s1 = dropWhile isspace s;
          signed = (s1 \<noteq> [] \<and> (hd s1 = CHR ''-'' \<or> hd s1 = CHR ''+''));
          negative = (s1 \<noteq> [] \<and> hd s1 = CHR ''-'');
          s2 = (if signed then tl s1 else s1);
          ds = takeWhile isdigit s2
      in if ds = [] \<or> 2 ^ 32 \<le> decimal ds then None
         else Some (if negative then - word_of_int (decimal ds) else word_of_int (decimal ds),
                    dropWhile isdigit s2))"

text \<open>
  The head of the three loops
  \<^verbatim>\<open>while (nodes_1 >> node_1 && nodes_2 >> node_2 && edge_types >> edge_type)\<close>: the
  triples it hands to the loop body, in order, until one of the three extractions
  fails.
\<close>

function read_triples :: "string \<Rightarrow> string \<Rightarrow> string \<Rightarrow> (u32 \<times> u32 \<times> u32) list" where
  "read_triples s1 s2 s3 =
     (case read_uint s1 of
        None \<Rightarrow> []
      | Some (node_1, s1') \<Rightarrow>
          (case read_uint s2 of
             None \<Rightarrow> []
           | Some (node_2, s2') \<Rightarrow>
               (case read_uint s3 of
                  None \<Rightarrow> []
                | Some (edge_type, s3') \<Rightarrow>
                    (node_1, node_2, edge_type) # read_triples s1' s2' s3')))"
  by pat_completeness auto
termination
proof -
  have shorter: "length s' < length s" if r: "read_uint s = Some (v, s')" for s s' v
  proof -
    define t where "t = dropWhile isspace s"
    define u where "u = (if t \<noteq> [] \<and> (hd t = CHR ''-'' \<or> hd t = CHR ''+'') then tl t else t)"
    from r have rest: "s' = dropWhile isdigit u" and digits: "takeWhile isdigit u \<noteq> []"
      by (auto simp: read_uint_def Let_def t_def u_def split: if_splits)
    have "length (takeWhile isdigit u) + length (dropWhile isdigit u) = length u"
      by (metis length_append takeWhile_dropWhile_id)
    with digits have "length (dropWhile isdigit u) < length u"
      by (cases "takeWhile isdigit u") auto
    moreover have "length u \<le> length t"
      by (simp add: u_def)
    moreover have "length t \<le> length s"
      by (simp add: t_def length_dropWhile_le)
    ultimately show ?thesis
      using rest by simp
  qed
  show ?thesis
    by (relation "measure (\<lambda>(s1, s2, s3). length s1)") (auto dest: shorter)
qed

declare read_triples.simps [simp del]

text \<open>
  The body of the first two loops: the linear scan
  \<^verbatim>\<open>for (edgeId = 0u; edgeId < numEdges; ++edgeId)\<close> writes the label at the first edge
  with the two endpoints and breaks.
\<close>

definition label_edge :: "Graph \<Rightarrow> u32 list \<Rightarrow> u32 \<times> u32 \<times> u32 \<Rightarrow> u32 list" where
  "label_edge g edgeTypes tr =
     (case find (\<lambda>edgeId. adjacencyKeys g ! edgeId = fst tr \<and> adjacencyVals g ! edgeId = fst (snd tr))
                [0..<numEdges g] of
        None \<Rightarrow> edgeTypes
      | Some edgeId \<Rightarrow> edgeTypes[edgeId := snd (snd tr)])"

definition label_edges :: "Graph \<Rightarrow> (u32 \<times> u32 \<times> u32) list \<Rightarrow> u32 list" where
  "label_edges g trs =
     foldl (label_edge g) (replicate (numEdges g) (- 1)) trs"

text \<open>
  The body of the third loop: it keeps the largest node id seen and appends the triple
  to \<^verbatim>\<open>keys3\<close>, \<^verbatim>\<open>vals3\<close> and \<^verbatim>\<open>edgeTypes3\<close>.
\<close>

definition target_step ::
  "u32 \<times> u32 list \<times> u32 list \<times> u32 list \<Rightarrow> u32 \<times> u32 \<times> u32 \<Rightarrow> u32 \<times> u32 list \<times> u32 list \<times> u32 list"
where
  "target_step acc tr =
     (case acc of (max_node_id, keys3, vals3, edgeTypes3) \<Rightarrow>
        (max (max max_node_id (fst tr)) (fst (snd tr)),
         keys3 @ [fst tr], vals3 @ [fst (snd tr)], edgeTypes3 @ [snd (snd tr)]))"

text \<open>
  \<^verbatim>\<open>WFObjectGenerator\<close> is not among the sources and is a parameter. The result of a
  call of \<^verbatim>\<open>StringToWFObject\<close> is the returned status and the file handed to
  \<^verbatim>\<open>WFObjectFileExporter\<close>, together with what the call passed to the generator: the
  three label vectors and the target graph.
\<close>

record 'p generator_env = "'p detector_env" +
  WFObjectGenerator ::
    "'p WFObject \<Rightarrow> 'p WFObject \<Rightarrow> Graph \<Rightarrow> Graph \<Rightarrow> Graph \<Rightarrow> u32 list \<Rightarrow> u32 list \<Rightarrow> u32 list
       \<Rightarrow> 'p WFObject"

record 'p generate_result =
  gen_status :: int
  gen_written :: "(string \<times> 'p WFObject) list"
  edgeTypes1 :: "u32 list"
  edgeTypes2 :: "u32 list"
  graph3 :: Graph
  edgeTypes3Host :: "u32 list"

definition StringToWFObject ::
  "('p, 'z) generator_env_scheme \<Rightarrow> string \<Rightarrow> string \<Rightarrow> string \<Rightarrow> string \<Rightarrow> 'p generate_result"
where
  "StringToWFObject K aFileName1 aFileName2 aInputString aOutFileName =
     (let obj1 = WFObject_read K aFileName1;
          obj2 = WFObject_read K aFileName2;
          graph1 = computeCollisionGraph K obj1;
          graph2 = computeCollisionGraph K obj2;
          (NodesStr_1_1, ss) = getline aInputString;
          (NodesStr_1_2, ss) = getline ss;
          (EdgeTypeStr_1, ss) = getline ss;
          edgeTypes1 = label_edges graph1 (read_triples NodesStr_1_1 NodesStr_1_2 EdgeTypeStr_1);
          (NodesStr_2_1, ss) = getline ss;
          (NodesStr_2_2, ss) = getline ss;
          (EdgeTypeStr_2, ss) = getline ss;
          edgeTypes2 = label_edges graph2 (read_triples NodesStr_2_1 NodesStr_2_2 EdgeTypeStr_2);
          (NodesStr_3_1, ss) = getline ss;
          (NodesStr_3_2, ss) = getline ss;
          (EdgeTypeStr_3, ss) = getline ss;
          (max_node_id, keys3, vals3, edgeTypes3) =
            foldl target_step (0, [], [], []) (read_triples NodesStr_3_1 NodesStr_3_2 EdgeTypeStr_3);
          graph3 =
            fromAdjacencyList \<lparr>intervals = [], adjacencyKeys = keys3, adjacencyVals = vals3\<rparr>
              (unat (max_node_id + 1)) False;
          obj3 = WFObjectGenerator K obj1 obj2 graph1 graph2 graph3 edgeTypes1 edgeTypes2 edgeTypes3
      in \<lparr>gen_status = 0, gen_written = [(aOutFileName, obj3)],
          edgeTypes1 = edgeTypes1, edgeTypes2 = edgeTypes2, graph3 = graph3,
          edgeTypes3Host = edgeTypes3\<rparr>)"

text \<open>
  The words of the specification for the same call: the encoded text is nine lines,
  the \<open>k\<close>-th of them being \<open>encoded_line k\<close>; a triple is matched against the edge list
  of an exemplar by \<open>matched_edge\<close>, the first edge with its two endpoints; an edge
  carries the label of the last triple matched to it, and the sentinel
  \<^verbatim>\<open>(unsigned)-1\<close> when no triple is; the node count of the target graph is one plus
  the largest node id of its triples.
\<close>

fun encoded_line :: "nat \<Rightarrow> string \<Rightarrow> string" where
  "encoded_line 0 txt = fst (getline txt)"
| "encoded_line (Suc k) txt = encoded_line k (snd (getline txt))"

definition encoded_triples :: "nat \<Rightarrow> string \<Rightarrow> (u32 \<times> u32 \<times> u32) list" where
  "encoded_triples k txt =
     read_triples (encoded_line (3 * k) txt) (encoded_line (3 * k + 1) txt)
       (encoded_line (3 * k + 2) txt)"

definition matched_edge :: "Graph \<Rightarrow> u32 \<times> u32 \<times> u32 \<Rightarrow> nat option" where
  "matched_edge g tr =
     find (\<lambda>edgeId. adjacencyKeys g ! edgeId = fst tr \<and> adjacencyVals g ! edgeId = fst (snd tr))
          [0..<numEdges g]"

definition edge_label :: "Graph \<Rightarrow> (u32 \<times> u32 \<times> u32) list \<Rightarrow> nat \<Rightarrow> u32" where
  "edge_label g trs edgeId =
     (case filter (\<lambda>tr. matched_edge g tr = Some edgeId) (rev trs) of
        [] \<Rightarrow> - 1
      | tr # _ \<Rightarrow> snd (snd tr))"

definition node_ids :: "(u32 \<times> u32 \<times> u32) list \<Rightarrow> u32 list" where
  "node_ids trs = map fst trs @ map (\<lambda>tr. fst (snd tr)) trs"

definition max_referenced :: "(u32 \<times> u32 \<times> u32) list \<Rightarrow> u32" where
  "max_referenced trs = Max (insert 0 (set (node_ids trs)))"

section \<open>A small world to run the entry points in\<close>

text \<open>
  Concrete collaborators, used to evaluate the entry points on explicit inputs. An
  object has two parts; its geometry is the gap between them, and the parts touch when
  the gap is 0. The grammar check follows section 4.3 of the specification on the
  compact arrays; a pass of the solver closes one unit of the gap.
\<close>

definition demo_object :: "nat \<Rightarrow> nat \<Rightarrow> nat \<Rightarrow> nat WFObject" where
  "demo_object t0 t1 gap =
     \<lparr>objects = [(0, 0), (1, 1)], faces = [\<lparr>material = t0\<rparr>, \<lparr>material = t1\<rparr>], geometry = gap\<rparr>"

definition demo_files :: "(string \<times> nat WFObject) list" where
  "demo_files =
     [(''ex/A.obj'', demo_object 2 3 0),
      (''ex/B.obj'', demo_object 2 3 0),
      (''in/near.obj'', demo_object 2 3 3),
      (''in/far.obj'', demo_object 2 3 500),
      (''in/clash.obj'', demo_object 2 4 0),
      (''in/drift.obj'', demo_object 2 4 2),
      (''in/slow.obj'', demo_object 2 4 128)]"

definition demo_read :: "string \<Rightarrow> nat WFObject" where
  "demo_read f =
     (case map_of demo_files f of
        Some obj \<Rightarrow> obj
      | None \<Rightarrow> \<lparr>objects = [], faces = [], geometry = 0\<rparr>)"

definition demo_collision_graph :: "nat WFObject \<Rightarrow> Graph" where
  "demo_collision_graph obj =
     (if length (objects obj) = 2 \<and> geometry obj = 0
      then \<lparr>intervals = [0, 1, 2], adjacencyKeys = [0, 1], adjacencyVals = [1, 0]\<rparr>
      else \<lparr>intervals = replicate (Suc (length (objects obj))) 0,
             adjacencyKeys = [], adjacencyVals = []\<rparr>)"

definition demo_edge_types :: "u32 list \<Rightarrow> u32 list \<Rightarrow> u32 list \<Rightarrow> (u32 \<times> u32) list" where
  "demo_edge_types ivals nbrs types =
     concat (map (\<lambda>u. map (\<lambda>e. (types ! u, types ! unat (nbrs ! e)))
                          [unat (ivals ! u)..<unat (ivals ! Suc u)])
                 [0..<length ivals - 1])"

definition demo_grammar_init ::
  "(u32 \<times> u32) list \<Rightarrow> nat WFObject \<Rightarrow> u32 list \<Rightarrow> u32 list \<Rightarrow> (u32 \<times> u32) list"
where
  "demo_grammar_init rules obj ivals nbrs =
     rules @ demo_edge_types ivals nbrs
               (map (\<lambda>u. case nodeType obj u of Some t \<Rightarrow> t | None \<Rightarrow> 0) [0..<length ivals - 1])"

definition demo_grammar_check ::
  "(u32 \<times> u32) list \<Rightarrow> u32 list \<Rightarrow> u32 list \<Rightarrow> u32 list \<Rightarrow> bool"
where
  "demo_grammar_check rules ivals nbrs types =
     list_all (\<lambda>r. r \<in> set rules) (demo_edge_types ivals nbrs types)"

definition demo_pass :: "u32 \<times> bool \<Rightarrow> nat WFObject \<Rightarrow> Graph \<Rightarrow> (u32 \<times> bool) \<times> nat WFObject" where
  "demo_pass w obj g =
     (if geometry obj = 0 then ((0, snd w), obj)
      else ((1, snd w), obj\<lparr>geometry := geometry obj - 1\<rparr>))"

definition demo_dir :: "string \<Rightarrow> string" where
  "demo_dir f = (case find_last_of f path_separators of None \<Rightarrow> [] | Some p \<Rightarrow> take (Suc p) f)"

definition demo_env :: "(nat, (u32 \<times> u32) list, u32 \<times> bool) repair_env" where
  "demo_env =
     \<lparr>WFObject_read = demo_read,
      computeCollisionGraph = demo_collision_graph,
      grammarCheck_new = [],
      grammarCheck_init = demo_grammar_init,
      grammarCheck_check = demo_grammar_check,
      wiggle_new = (0, False),
      wiggle_init = (\<lambda>w obj g. w),
      fixRelativeTransformations = demo_pass,
      numCorrections = fst,
      debugOutputLocalFrames = snd,
      getDirName = demo_dir\<rparr>"

definition demo_converter :: "nat \<Rightarrow> nat WFObject \<Rightarrow> Graph \<Rightarrow> (string \<times> string) \<times> nat" where
  "demo_converter r obj g =
     (if even r then ((''AB'' @ [newline], ''0 1'' @ [newline]), Suc r)
      else ((''BA'' @ [newline], ''1 0'' @ [newline]), Suc r))"

definition demo_string_env :: "(nat, nat) string_env" where
  "demo_string_env =
     \<lparr>WFObject_read = demo_read,
      computeCollisionGraph = demo_collision_graph,
      isConnected = (\<lambda>g. numNodes g \<le> 1 \<or> adjacencyVals g \<noteq> []),
      converter = demo_converter,
      genRandVariation = (\<lambda>wg wv r f1 f2 obj1 obj2 g1 g2. (''ABA'' @ [newline], Suc r))\<rparr>"

definition demo_process :: "(nat, nat) process" where
  "demo_process = \<lparr>blocks = [], fresh = 1, outputString = None, exports = [], rng = 0\<rparr>"

text \<open>
  The generator of the small world leaves a trace of each argument in the geometry
  of the object it returns: the edges and the nodes of the target graph, the edges of
  the exemplars without a label, and the labels of the target.
\<close>

definition demo_generate ::
  "nat WFObject \<Rightarrow> nat WFObject \<Rightarrow> Graph \<Rightarrow> Graph \<Rightarrow> Graph \<Rightarrow> u32 list \<Rightarrow> u32 list \<Rightarrow> u32 list
     \<Rightarrow> nat WFObject"
where
  "demo_generate obj1 obj2 g1 g2 g3 t1 t2 t3 =
     obj1\<lparr>geometry :=
            5000 + numEdges g3 + 10 * numNodes g3
            + 100 * length (filter (\<lambda>t. t = - 1) (t1 @ t2)) + 1000 * length t3\<rparr>"

definition demo_generator_env :: "nat generator_env" where
  "demo_generator_env =
     \<lparr>WFObject_read = demo_read,
      computeCollisionGraph = demo_collision_graph,
      WFObjectGenerator = demo_generate\<rparr>"

text \<open>
  An encoded text of nine lines: both edges of exemplar A are labelled, one edge of
  exemplar B is, and the target graph is the path 0 - 1 - 2.
\<close>

definition demo_encoded :: string where
  "demo_encoded =
     concat (map (\<lambda>l. l @ [newline])
       [''0 1'', ''1 0'', ''7 9'', ''0'', ''1'', ''5'', ''0 1'', ''1 2'', ''3 4''])"

text \<open>
  An encoded text whose target graph names the node id 4294967295, and a converter
  that returns empty texts.
\<close>

definition demo_wrap_encoded :: string where
  "demo_wrap_encoded =
     concat (map (\<lambda>l. l @ [newline])
       [[], [], [], [], [], [], ''4294967295'', ''0'', ''7''])"


subsection \<open>The pass loop\<close>

lemma wiggle_loop_length:
  "wiggle_loop K n w obj g = (w', obj', ps) \<Longrightarrow> length ps \<le> n"
proof (induction n arbitrary: w obj w' obj' ps)
  case 0
  then show ?case by simp
next
  case (Suc n)
  obtain w1 obj1 where p: "fixRelativeTransformations K w obj g = (w1, obj1)"
    by (cases "fixRelativeTransformations K w obj g")
  show ?case
  proof (cases "numCorrections K w1 = 0")
    case True
    with Suc.prems p show ?thesis by auto
  next
    case False
    obtain w2 obj2 qs where r: "wiggle_loop K n w1 obj1 g = (w2, obj2, qs)"
      by (cases "wiggle_loop K n w1 obj1 g")
    from Suc.IH [OF r] Suc.prems p False r show ?thesis by auto
  qed
qed

lemma wiggle_loop_zero_is_last:
  "wiggle_loop K n w obj g = (w', obj', ps) \<Longrightarrow> i < length ps \<Longrightarrow> ps ! i = 0
     \<Longrightarrow> Suc i = length ps"
proof (induction n arbitrary: w obj w' obj' ps i)
  case 0
  then show ?case by simp
next
  case (Suc n)
  obtain w1 obj1 where p: "fixRelativeTransformations K w obj g = (w1, obj1)"
    by (cases "fixRelativeTransformations K w obj g")
  show ?case
  proof (cases "numCorrections K w1 = 0")
    case True
    with Suc.prems p show ?thesis by auto
  next
    case False
    obtain w2 obj2 qs where r: "wiggle_loop K n w1 obj1 g = (w2, obj2, qs)"
      by (cases "wiggle_loop K n w1 obj1 g")
    with Suc.prems p False have ps: "ps = numCorrections K w1 # qs" by auto
    show ?thesis
    proof (cases i)
      case 0
      with Suc.prems(3) ps False show ?thesis by simp
    next
      case (Suc j)
      with Suc.prems ps have "j < length qs" "qs ! j = 0" by auto
      from Suc.IH [OF r this] ps Suc show ?thesis by simp
    qed
  qed
qed

lemma wiggle_loop_run_passes:
  "wiggle_loop K n w obj g = (w', obj', ps) \<Longrightarrow> run_passes K (length ps) w obj g = (w', obj')"
proof (induction n arbitrary: w obj w' obj' ps)
  case 0
  then show ?case by simp
next
  case (Suc n)
  obtain w1 obj1 where p: "fixRelativeTransformations K w obj g = (w1, obj1)"
    by (cases "fixRelativeTransformations K w obj g")
  show ?case
  proof (cases "numCorrections K w1 = 0")
    case True
    with Suc.prems p show ?thesis by auto
  next
    case False
    obtain w2 obj2 qs where r: "wiggle_loop K n w1 obj1 g = (w2, obj2, qs)"
      by (cases "wiggle_loop K n w1 obj1 g")
    from Suc.IH [OF r] Suc.prems p False r show ?thesis by auto
  qed
qed

lemma wiggle_loop_short_converged:
  "wiggle_loop K n w obj g = (w', obj', ps) \<Longrightarrow> length ps < n \<Longrightarrow> ps \<noteq> [] \<and> last ps = 0"
proof (induction n arbitrary: w obj w' obj' ps)
  case 0
  then show ?case by simp
next
  case (Suc n)
  obtain w1 obj1 where p: "fixRelativeTransformations K w obj g = (w1, obj1)"
    by (cases "fixRelativeTransformations K w obj g")
  show ?case
  proof (cases "numCorrections K w1 = 0")
    case True
    with Suc.prems p show ?thesis by auto
  next
    case False
    obtain w2 obj2 qs where r: "wiggle_loop K n w1 obj1 g = (w2, obj2, qs)"
      by (cases "wiggle_loop K n w1 obj1 g")
    with Suc.prems p False have ps: "ps = numCorrections K w1 # qs" by auto
    with Suc.prems have "length qs < n" by simp
    from Suc.IH [OF r this] ps show ?thesis by simp
  qed
qed

subsection \<open>The entry point in terms of its stages\<close>

lemma fixVariation_stages:
  "fixVariation K aFileName1 aFileName2 aFileName3 aOutFileName =
     (case target_nodeTypes K aFileName3 of
        None \<Rightarrow> None
      | Some nodeTypes \<Rightarrow>
          if \<not> conforms K (induced_grammar K aFileName1 aFileName2) nodeTypes
                 (WFObject_read K aFileName3)
          then Some \<lparr>status = 1, target = WFObject_read K aFileName3, passes = [], written = []\<rparr>
          else
            (case wiggle_loop K 128 (exemplar_wiggle K aFileName1 aFileName2)
                    (WFObject_read K aFileName3)
                    (computeCollisionGraph K (WFObject_read K aFileName3)) of
               (wiggle', obj3', ps) \<Rightarrow>
                 if debugOutputLocalFrames K wiggle'
                    \<or> conforms K (induced_grammar K aFileName1 aFileName2) nodeTypes obj3'
                 then Some \<lparr>status = 0, target = obj3', passes = ps,
                        written = [(getDirName K aFileName3 @ outFileName_of aOutFileName, obj3')]\<rparr>
                 else Some \<lparr>status = 2, target = obj3', passes = ps, written = []\<rparr>))"
  by (simp add: fixVariation_def target_nodeTypes_def conforms_def induced_grammar_def
      exemplar_wiggle_def Let_def split: option.splits prod.splits)

subsection \<open>The name of the written file\<close>

lemma size_t_sub_no_wrap:
  assumes "b \<le> a" and "a < 2 ^ 64"
  shows "size_t_sub a b = a - b"
proof -
  have b: "b mod 2 ^ 64 = b"
    using assms by (intro mod_less) linarith
  have "a + 2 ^ 64 - b = (a - b) + 2 ^ 64"
    using assms by linarith
  then have "(a + 2 ^ 64 - b) mod 2 ^ 64 = (a - b) mod 2 ^ 64"
    by (simp only: mod_add_self2)
  also have "\<dots> = a - b"
    using assms by (intro mod_less) linarith
  finally show ?thesis
    by (simp only: size_t_sub_def b)
qed

lemma outFileName_of_plain:
  assumes "find_last_of s path_separators = None" and "5 \<le> length s" and "length s < 2 ^ 64"
  shows "outFileName_of s = take (length s - 5) s"
  using assms by (simp add: outFileName_of_def size_t_sub_no_wrap)

lemma find_last_of_less: "find_last_of s cs = Some p \<Longrightarrow> p < length s"
proof -
  assume h: "find_last_of s cs = Some p"
  then obtain rest where "filter (\<lambda>i. s ! i \<in> set cs) (rev [0..<length s]) = p # rest"
    by (auto simp: find_last_of_def split: list.splits)
  then have "p \<in> set (filter (\<lambda>i. s ! i \<in> set cs) (rev [0..<length s]))"
    by simp
  then show ?thesis by simp
qed

lemma outFileName_of_separator:
  assumes "find_last_of s path_separators = Some p" and "p + 5 \<le> length s"
    and "length s < 2 ^ 64"
  shows "outFileName_of s = take (length (drop (Suc p) s) - 4) (drop (Suc p) s)"
proof -
  have "size_t_sub (length s) p = length s - p"
    using assms by (simp add: size_t_sub_no_wrap)
  moreover have "size_t_sub (length s - p) 5 = length s - p - 5"
    using assms by (simp add: size_t_sub_no_wrap)
  moreover have "length s - p - 5 = length (drop (Suc p) s) - 4"
    using assms by simp
  ultimately show ?thesis
    using assms by (simp add: outFileName_of_def)
qed

lemmas name_defs = outFileName_of_def find_last_of_def path_separators_def size_t_sub_def
  upt_conv_Cons

lemma near_fixed_with_separator: "outFileName_of ''out/near_fixed.json'' = ''near_fixed.''"
  by (simp add: name_defs)

lemma near_fixed_plain: "outFileName_of ''near_fixed.json'' = ''near_fixed''"
  by (simp add: name_defs)

subsection \<open>The small world\<close>

lemma demo_read_near: "WFObject_read demo_env ''in/near.obj'' = demo_object 2 3 3"
  by code_simp

lemma demo_types_near: "target_nodeTypes demo_env ''in/near.obj'' = Some [2, 3]"
  by code_simp

lemma demo_conforms_near:
  "conforms demo_env (induced_grammar demo_env ''ex/A.obj'' ''ex/B.obj'') [2, 3]
     (demo_object 2 3 3)"
  by code_simp

lemma demo_loop_near:
  "wiggle_loop demo_env 128 (exemplar_wiggle demo_env ''ex/A.obj'' ''ex/B.obj'')
     (demo_object 2 3 3) (computeCollisionGraph demo_env (demo_object 2 3 3))
   = ((0, False), demo_object 2 3 0, [1, 1, 1, 0])"
  by code_simp

lemma demo_conforms_near_fixed:
  "conforms demo_env (induced_grammar demo_env ''ex/A.obj'' ''ex/B.obj'') [2, 3]
     (demo_object 2 3 0)"
  by code_simp

lemma demo_dir_in: "getDirName demo_env ''in/near.obj'' = ''in/''"
  by code_simp

lemma demo_debug_off: "\<not> debugOutputLocalFrames demo_env (c, False)"
  by (simp add: demo_env_def)

lemma demo_repair_near:
  "fixVariation demo_env ''ex/A.obj'' ''ex/B.obj'' ''in/near.obj'' out
   = Some \<lparr>status = 0, target = demo_object 2 3 0, passes = [1, 1, 1, 0],
        written = [(''in/'' @ outFileName_of out, demo_object 2 3 0)]\<rparr>"
  by (simp add: fixVariation_stages demo_read_near demo_types_near demo_conforms_near
      demo_loop_near demo_conforms_near_fixed demo_dir_in)

lemma demo_repair_clash:
  "fixVariation demo_env ''ex/A.obj'' ''ex/B.obj'' ''in/clash.obj'' out
   = Some \<lparr>status = 1, target = demo_object 2 4 0, passes = [], written = []\<rparr>"
proof -
  have "target_nodeTypes demo_env ''in/clash.obj'' = Some [2, 4]"
    by code_simp
  moreover have "WFObject_read demo_env ''in/clash.obj'' = demo_object 2 4 0"
    by code_simp
  moreover have "\<not> conforms demo_env (induced_grammar demo_env ''ex/A.obj'' ''ex/B.obj'') [2, 4]
     (demo_object 2 4 0)"
    by code_simp
  ultimately show ?thesis
    by (simp add: fixVariation_stages)
qed

lemma demo_conforms_apart:
  "conforms demo_env (induced_grammar demo_env ''ex/A.obj'' ''ex/B.obj'') [2, 4]
     (demo_object 2 4 (Suc n))"
  by (simp add: conforms_def demo_env_def demo_collision_graph_def demo_object_def
      demo_grammar_check_def demo_edge_types_def)

lemma demo_clash_rejected:
  "\<not> conforms demo_env (induced_grammar demo_env ''ex/A.obj'' ''ex/B.obj'') [2, 4]
     (demo_object 2 4 0)"
  by code_simp

lemma demo_repair_drift:
  "fixVariation demo_env ''ex/A.obj'' ''ex/B.obj'' ''in/drift.obj'' out
   = Some \<lparr>status = 2, target = demo_object 2 4 0, passes = [1, 1, 0], written = []\<rparr>"
proof -
  have "target_nodeTypes demo_env ''in/drift.obj'' = Some [2, 4]"
    by code_simp
  moreover have "WFObject_read demo_env ''in/drift.obj'' = demo_object 2 4 2"
    by code_simp
  moreover have "conforms demo_env (induced_grammar demo_env ''ex/A.obj'' ''ex/B.obj'') [2, 4]
     (demo_object 2 4 2)"
    by code_simp
  moreover have "wiggle_loop demo_env 128 (exemplar_wiggle demo_env ''ex/A.obj'' ''ex/B.obj'')
     (demo_object 2 4 2) (computeCollisionGraph demo_env (demo_object 2 4 2))
     = ((0, False), demo_object 2 4 0, [1, 1, 0])"
    by code_simp
  ultimately show ?thesis
    by (simp add: fixVariation_stages demo_clash_rejected demo_debug_off)
qed

lemma demo_repair_slow:
  "fixVariation demo_env ''ex/A.obj'' ''ex/B.obj'' ''in/slow.obj'' out
   = Some \<lparr>status = 2, target = demo_object 2 4 0, passes = replicate 128 1, written = []\<rparr>"
proof -
  have "target_nodeTypes demo_env ''in/slow.obj'' = Some [2, 4]"
    by code_simp
  moreover have "WFObject_read demo_env ''in/slow.obj'' = demo_object 2 4 128"
    by code_simp
  moreover have "conforms demo_env (induced_grammar demo_env ''ex/A.obj'' ''ex/B.obj'') [2, 4]
     (demo_object 2 4 128)"
    by code_simp
  moreover have "wiggle_loop demo_env 128 (exemplar_wiggle demo_env ''ex/A.obj'' ''ex/B.obj'')
     (demo_object 2 4 128) (computeCollisionGraph demo_env (demo_object 2 4 128))
     = ((1, False), demo_object 2 4 0, replicate 128 1)"
    by code_simp
  ultimately show ?thesis
    by (simp add: fixVariation_stages demo_clash_rejected demo_debug_off)
qed

subsection \<open>Claims about the repair entry point\<close>

text \<open>
  C1. In \<^verbatim>\<open>fixVariation\<close> the pass loop runs \<^verbatim>\<open>fixRelativeTransformations\<close> at most 128
  times, and once a pass reports zero corrections no further pass runs: a call that
  returns has recorded at most 128 passes, a pass that reported zero corrections is
  the last one recorded, and the target object at the return is the object read from
  the third file after exactly the recorded number of passes.
\<close>

theorem fixVariation_pass_bound:
  assumes "fixVariation K aFileName1 aFileName2 aFileName3 aOutFileName = Some r"
  shows "length (passes r) \<le> 128
    \<and> (\<forall>i<length (passes r). passes r ! i = 0 \<longrightarrow> Suc i = length (passes r))
    \<and> target r =
        snd (run_passes K (length (passes r)) (exemplar_wiggle K aFileName1 aFileName2)
               (WFObject_read K aFileName3)
               (computeCollisionGraph K (WFObject_read K aFileName3)))"
proof -
  let ?obj3 = "WFObject_read K aFileName3"
  let ?w = "exemplar_wiggle K aFileName1 aFileName2"
  let ?g = "computeCollisionGraph K ?obj3"
  obtain w' obj' ps where loop: "wiggle_loop K 128 ?w ?obj3 ?g = (w', obj', ps)"
    by (cases "wiggle_loop K 128 ?w ?obj3 ?g")
  have len: "length ps \<le> 128"
    by (rule wiggle_loop_length [OF loop])
  have last: "\<forall>i<length ps. ps ! i = 0 \<longrightarrow> Suc i = length ps"
    using wiggle_loop_zero_is_last [OF loop] by blast
  have run: "run_passes K (length ps) ?w ?obj3 ?g = (w', obj')"
    by (rule wiggle_loop_run_passes [OF loop])
  from assms obtain nodeTypes where nt: "target_nodeTypes K aFileName3 = Some nodeTypes"
    by (auto simp: fixVariation_stages split: option.splits)
  from assms nt loop consider
      "r = \<lparr>status = 1, target = ?obj3, passes = [], written = []\<rparr>"
    | "target r = obj'" "passes r = ps"
    by (auto simp: fixVariation_stages split: if_splits)
  then show ?thesis
  proof cases
    case 1
    then show ?thesis by simp
  next
    case 2
    with len last run show ?thesis by simp
  qed
qed

theorem fixVariation_pass_bound_witness:
  "fixVariation demo_env ''ex/A.obj'' ''ex/B.obj'' ''in/near.obj'' ''near_fixed.json''
     = Some \<lparr>status = 0, target = demo_object 2 3 0, passes = [1, 1, 1, 0],
          written = [(''in/near_fixed'', demo_object 2 3 0)]\<rparr>
   \<and> length [1, 1, 1, 0 :: u32] \<le> 128
   \<and> [1, 1, 1, 0 :: u32] ! 3 = 0 \<and> Suc 3 = length [1, 1, 1, 0 :: u32]"
proof -
  have run: "fixVariation demo_env ''ex/A.obj'' ''ex/B.obj'' ''in/near.obj'' ''near_fixed.json''
     = Some \<lparr>status = 0, target = demo_object 2 3 0, passes = [1, 1, 1, 0],
          written = [(''in/near_fixed'', demo_object 2 3 0)]\<rparr>"
    by (simp add: demo_repair_near near_fixed_plain)
  from fixVariation_pass_bound [OF run] run show ?thesis
    by simp
qed

text \<open>
  C2. When the collision graph of the target object fails the grammar check induced
  from the two exemplars, \<^verbatim>\<open>fixVariation\<close> returns status 1, no pass of the solver has
  run, the target object is as it was read, and no file has been written.
\<close>

theorem fixVariation_grammar_violation:
  assumes "target_nodeTypes K aFileName3 = Some nodeTypes"
    and "\<not> conforms K (induced_grammar K aFileName1 aFileName2) nodeTypes
             (WFObject_read K aFileName3)"
  shows "fixVariation K aFileName1 aFileName2 aFileName3 aOutFileName
    = Some \<lparr>status = 1, target = WFObject_read K aFileName3, passes = [], written = []\<rparr>"
  using assms by (simp add: fixVariation_stages)

theorem fixVariation_grammar_violation_witness:
  "target_nodeTypes demo_env ''in/clash.obj'' = Some [2, 4]
   \<and> \<not> conforms demo_env (induced_grammar demo_env ''ex/A.obj'' ''ex/B.obj'') [2, 4]
         (WFObject_read demo_env ''in/clash.obj'')
   \<and> fixVariation demo_env ''ex/A.obj'' ''ex/B.obj'' ''in/clash.obj'' ''clash_fixed.json''
     = Some \<lparr>status = 1, target = WFObject_read demo_env ''in/clash.obj'', passes = [],
          written = []\<rparr>"
proof -
  have nt: "target_nodeTypes demo_env ''in/clash.obj'' = Some [2, 4]"
    by code_simp
  have bad: "\<not> conforms demo_env (induced_grammar demo_env ''ex/A.obj'' ''ex/B.obj'') [2, 4]
         (WFObject_read demo_env ''in/clash.obj'')"
    by code_simp
  from fixVariation_grammar_violation [OF nt bad] nt bad show ?thesis
    by simp
qed

text \<open>
  C3, as the specification states it, asks for a status that tells a loop that used
  up its 128 passes from a repair that converged and failed the validation. Both
  outcomes return 2: the first target below needs 128 corrections and never reports a
  pass without one, the second converges on its third pass.
\<close>

theorem fixVariation_exhausted_status_not_distinct:
  "fixVariation demo_env ''ex/A.obj'' ''ex/B.obj'' ''in/slow.obj'' ''fixed.json''
     = Some \<lparr>status = 2, target = demo_object 2 4 0, passes = replicate 128 1, written = []\<rparr>
   \<and> fixVariation demo_env ''ex/A.obj'' ''ex/B.obj'' ''in/drift.obj'' ''fixed.json''
     = Some \<lparr>status = 2, target = demo_object 2 4 0, passes = [1, 1, 0], written = []\<rparr>"
  by (simp only: demo_repair_slow demo_repair_drift)

text \<open>
  C3, amended. For a target that conforms to the induced grammar, the returned status
  is decided by the validation after the pass loop alone: it is 0 when the solver's
  debug flag is set or the collision graph recomputed from the repaired object
  conforms, and 2 otherwise, whether the loop ended on a pass without corrections or
  used up its 128 passes.
\<close>

theorem fixVariation_status_after_repair:
  assumes "fixVariation K aFileName1 aFileName2 aFileName3 aOutFileName = Some r"
    and "target_nodeTypes K aFileName3 = Some nodeTypes"
    and "conforms K (induced_grammar K aFileName1 aFileName2) nodeTypes
           (WFObject_read K aFileName3)"
  shows "status r =
    (if debugOutputLocalFrames K
          (fst (run_passes K (length (passes r)) (exemplar_wiggle K aFileName1 aFileName2)
                  (WFObject_read K aFileName3)
                  (computeCollisionGraph K (WFObject_read K aFileName3))))
        \<or> conforms K (induced_grammar K aFileName1 aFileName2) nodeTypes (target r)
     then 0 else 2)"
proof -
  let ?obj3 = "WFObject_read K aFileName3"
  let ?w = "exemplar_wiggle K aFileName1 aFileName2"
  let ?g = "computeCollisionGraph K ?obj3"
  obtain w' obj' ps where loop: "wiggle_loop K 128 ?w ?obj3 ?g = (w', obj', ps)"
    by (cases "wiggle_loop K 128 ?w ?obj3 ?g")
  have run: "run_passes K (length ps) ?w ?obj3 ?g = (w', obj')"
    by (rule wiggle_loop_run_passes [OF loop])
  let ?ok = "debugOutputLocalFrames K w'
      \<or> conforms K (induced_grammar K aFileName1 aFileName2) nodeTypes obj'"
  from assms loop have r:
    "r = (if ?ok
          then \<lparr>status = 0, target = obj', passes = ps,
                 written = [(getDirName K aFileName3 @ outFileName_of aOutFileName, obj')]\<rparr>
          else \<lparr>status = 2, target = obj', passes = ps, written = []\<rparr>)"
    by (auto simp: fixVariation_stages split: if_splits)
  show ?thesis
  proof (cases ?ok)
    case True
    with r run show ?thesis by simp
  next
    case False
    with r run show ?thesis by simp
  qed
qed

theorem fixVariation_status_after_repair_witness:
  "fixVariation demo_env ''ex/A.obj'' ''ex/B.obj'' ''in/slow.obj'' ''fixed.json''
     = Some \<lparr>status = 2, target = demo_object 2 4 0, passes = replicate 128 1, written = []\<rparr>
   \<and> target_nodeTypes demo_env ''in/slow.obj'' = Some [2, 4]
   \<and> conforms demo_env (induced_grammar demo_env ''ex/A.obj'' ''ex/B.obj'') [2, 4]
        (WFObject_read demo_env ''in/slow.obj'')
   \<and> \<not> conforms demo_env (induced_grammar demo_env ''ex/A.obj'' ''ex/B.obj'') [2, 4]
        (demo_object 2 4 0)
   \<and> \<not> debugOutputLocalFrames demo_env
        (fst (run_passes demo_env 128 (exemplar_wiggle demo_env ''ex/A.obj'' ''ex/B.obj'')
                (WFObject_read demo_env ''in/slow.obj'')
                (computeCollisionGraph demo_env (WFObject_read demo_env ''in/slow.obj''))))"
proof -
  have run: "fixVariation demo_env ''ex/A.obj'' ''ex/B.obj'' ''in/slow.obj'' ''fixed.json''
     = Some \<lparr>status = 2, target = demo_object 2 4 0, passes = replicate 128 1, written = []\<rparr>"
    by (rule demo_repair_slow)
  have nt: "target_nodeTypes demo_env ''in/slow.obj'' = Some [2, 4]"
    by code_simp
  have ok: "conforms demo_env (induced_grammar demo_env ''ex/A.obj'' ''ex/B.obj'') [2, 4]
        (WFObject_read demo_env ''in/slow.obj'')"
    by code_simp
  from fixVariation_status_after_repair [OF run nt ok] run nt ok show ?thesis
    by (simp split: if_splits)
qed

text \<open>
  C8. With a path separator in \<^verbatim>\<open>aOutFileName\<close> the written name is the base name
  without its last four characters, not five: the successful repair below writes
  \<^verbatim>\<open>in/near_fixed.\<close> for \<^verbatim>\<open>out/near_fixed.json\<close>, and \<^verbatim>\<open>in/near_fixed\<close> for the same
  name without a directory.
\<close>

theorem fixVariation_separator_keeps_fifth_character:
  "fixVariation demo_env ''ex/A.obj'' ''ex/B.obj'' ''in/near.obj'' ''out/near_fixed.json''
     = Some \<lparr>status = 0, target = demo_object 2 3 0, passes = [1, 1, 1, 0],
          written = [(''in/near_fixed.'', demo_object 2 3 0)]\<rparr>
   \<and> fixVariation demo_env ''ex/A.obj'' ''ex/B.obj'' ''in/near.obj'' ''near_fixed.json''
     = Some \<lparr>status = 0, target = demo_object 2 3 0, passes = [1, 1, 1, 0],
          written = [(''in/near_fixed'', demo_object 2 3 0)]\<rparr>"
  by (simp add: demo_repair_near near_fixed_with_separator near_fixed_plain)

subsection \<open>The retained buffer\<close>

lemma returned_text_assign:
  "returned_text (return_outputString (assign_outputString result st)) = Some result"
  by (simp add: returned_text_def return_outputString_def assign_outputString_def
      new_chars_def text_at_def)

lemma outputString_assign:
  "outputString (assign_outputString result st) = Some (fresh st)"
  by (simp add: assign_outputString_def new_chars_def)

lemma allocated_assign:
  "allocated (assign_outputString result st) a \<longleftrightarrow> a = fresh st \<or> allocated st a"
  by (auto simp: assign_outputString_def new_chars_def allocated_def)

lemma allocated_free_outputString:
  "allocated (free_outputString st) a \<longleftrightarrow> allocated st a \<and> outputString st \<noteq> Some a"
  by (force simp: free_outputString_def free_block_def allocated_def split: option.splits)

lemma fresh_free_outputString: "fresh (free_outputString st) = fresh st"
  by (simp add: free_outputString_def free_block_def split: option.splits)

lemma allocated_rng_update: "allocated (st\<lparr>rng := r\<rparr>) a = allocated st a"
  by (simp add: allocated_def)

lemma snd_return_outputString: "snd (return_outputString st) = st"
  by (simp add: return_outputString_def split: option.splits)

text \<open>
  The two entry points that free: a buffer retained before the call is no longer
  allocated after it (addresses below \<open>fresh\<close> are the ones handed out so far).
\<close>

lemma WFObjectToString_frees_retained:
  assumes "outputString st = Some a" and "a < fresh st"
  shows "\<not> allocated (snd (WFObjectToString K st aFilename)) a"
  using assms
  by (simp add: WFObjectToString_def Let_def snd_return_outputString allocated_assign
      allocated_free_outputString fresh_free_outputString exportCollisionGraph_def
      split: prod.splits)

lemma WFObjectToStrings_frees_retained:
  assumes "outputString st = Some a" and "a < fresh st"
    and "isConnected K (computeCollisionGraph K (WFObject_read K aFilename))"
  shows "\<not> allocated (snd (WFObjectToStrings K st aFilename aAppendNodeIds)) a"
  using assms
  by (simp add: WFObjectToStrings_def Let_def snd_return_outputString allocated_assign
      allocated_free_outputString fresh_free_outputString exportCollisionGraph_def
      split: prod.splits)

lemma WFObjectRandomVariations_keeps_retained:
  assumes "outputString st = Some a" and "allocated st a" and "a < fresh st"
  shows "allocated (snd (WFObjectRandomVariations K st aFileName1 aFileName2)) a
    \<and> outputString (snd (WFObjectRandomVariations K st aFileName1 aFileName2)) \<noteq> Some a"
  using assms
  by (simp add: WFObjectRandomVariations_def Let_def snd_return_outputString allocated_assign
      outputString_assign allocated_rng_update split: prod.splits)

subsection \<open>The samples of \<^verbatim>\<open>WFObjectToStrings\<close>\<close>

lemma sample_loop_draws:
  "fst (sample_loop K n obj graph acc) =
     (fst (fst acc) @ concat (map fst (draws K n (snd acc) obj graph)),
      snd (fst acc) @ concat (map snd (draws K n (snd acc) obj graph)))"
proof (induction n arbitrary: acc)
  case 0
  then show ?case by simp
next
  case (Suc n)
  obtain new_sample r where c: "converter K (snd acc) obj graph = (new_sample, r)"
    by (cases "converter K (snd acc) obj graph")
  show ?case
    by (simp add: c Suc.IH)
qed

lemma sample_loop_from_base:
  "fst (sample_loop K n obj graph (converter K r obj graph)) =
     (concat (map fst (draws K (Suc n) r obj graph)),
      concat (map snd (draws K (Suc n) r obj graph)))"
  by (simp add: sample_loop_draws)

lemma length_draws: "length (draws K n r obj graph) = n"
  by (induction n arbitrary: r) simp_all

lemma eleven: "Suc 10 = 11"
  by simp

lemma WFObjectToStrings_text:
  assumes "isConnected K (computeCollisionGraph K (WFObject_read K aFilename))"
  shows "returned_text (WFObjectToStrings K st aFilename aAppendNodeIds) =
    (let obj = WFObject_read K aFilename;
         samples = draws K 11 (rng st) obj (computeCollisionGraph K obj);
         nodeIds = concat (map snd samples)
     in Some (concat (map fst samples)
              @ (if aAppendNodeIds then substr nodeIds 0 (find_last_of nodeIds [newline])
                 else [])))"
proof -
  let ?obj = "WFObject_read K aFilename"
  let ?g = "computeCollisionGraph K ?obj"
  obtain sn r where loop: "sample_loop K 10 ?obj ?g (converter K (rng st) ?obj ?g) = (sn, r)"
    by (cases "sample_loop K 10 ?obj ?g (converter K (rng st) ?obj ?g)")
  have "sn = fst (sample_loop K 10 ?obj ?g (converter K (rng st) ?obj ?g))"
    by (simp add: loop)
  then have sn: "sn = (concat (map fst (draws K 11 (rng st) ?obj ?g)),
      concat (map snd (draws K 11 (rng st) ?obj ?g)))"
    by (simp only: sample_loop_from_base eleven)
  show ?thesis
    using assms
    by (simp add: WFObjectToStrings_def Let_def exportCollisionGraph_def loop sn
        returned_text_assign)
qed


subsection \<open>Stripping the last line break\<close>

lemma find_last_of_trailing:
  assumes "t \<noteq> []" and "last t = c"
  shows "find_last_of t [c] = Some (length t - 1)"
proof -
  from assms obtain m where m: "length t = Suc m"
    by (cases t) auto
  have "t ! m = c"
    using assms m by (simp add: last_conv_nth)
  then show ?thesis
    by (simp add: find_last_of_def m)
qed

lemma substr_trailing:
  assumes "t \<noteq> []" and "last t = c"
  shows "substr t 0 (find_last_of t [c]) = butlast t"
  using assms by (simp add: find_last_of_trailing butlast_conv_take)

lemma concat_lines_trailing:
  assumes "ss \<noteq> []" and "\<forall>s\<in>set ss. s \<noteq> [] \<and> last s = c"
  shows "concat ss \<noteq> [] \<and> last (concat ss) = c"
proof -
  from assms(1) obtain ss' s where ss: "ss = ss' @ [s]"
    by (cases ss rule: rev_cases) auto
  with assms(2) have "s \<noteq> []" "last s = c" by auto
  then show ?thesis by (simp add: ss)
qed


subsection \<open>Claims about the string-returning entry points\<close>




text \<open>
  C6. On a connected collision graph \<^verbatim>\<open>WFObjectToStrings\<close> returns the structural
  texts of exactly 11 successive samples of the converter, the base sample and 10
  resamples, one after the other. With \<^verbatim>\<open>aAppendNodeIds\<close> the node-id texts of the same
  11 samples follow, concatenated, without their last character, the final line
  break; a node-id text is a line, so it ends with a line break.
\<close>

theorem WFObjectToStrings_eleven_samples:
  assumes "isConnected K (computeCollisionGraph K (WFObject_read K aFilename))"
    and "samples = draws K 11 (rng st) (WFObject_read K aFilename)
                     (computeCollisionGraph K (WFObject_read K aFilename))"
    and "\<forall>s\<in>set samples. snd s \<noteq> [] \<and> last (snd s) = newline"
  shows "length samples = 11
    \<and> returned_text (WFObjectToStrings K st aFilename aAppendNodeIds) =
        Some (concat (map fst samples)
              @ (if aAppendNodeIds then butlast (concat (map snd samples)) else []))"
proof -
  have len: "length samples = 11"
    by (simp add: assms(2) length_draws)
  then have "map snd samples \<noteq> []"
    by auto
  moreover have "\<forall>t\<in>set (map snd samples). t \<noteq> [] \<and> last t = newline"
    using assms(3) by simp
  ultimately have "concat (map snd samples) \<noteq> [] \<and> last (concat (map snd samples)) = newline"
    by (rule concat_lines_trailing)
  then have "substr (concat (map snd samples)) 0 (find_last_of (concat (map snd samples)) [newline])
      = butlast (concat (map snd samples))"
    by (simp add: substr_trailing)
  with len assms(1) show ?thesis
    by (simp add: WFObjectToStrings_text Let_def assms(2))
qed


theorem WFObjectToStrings_eleven_samples_witness:
  "isConnected demo_string_env
     (computeCollisionGraph demo_string_env (WFObject_read demo_string_env ''ex/A.obj''))
   \<and> list_all (\<lambda>s. snd s \<noteq> [] \<and> last (snd s) = newline)
        (draws demo_string_env 11 (rng demo_process) (WFObject_read demo_string_env ''ex/A.obj'')
           (computeCollisionGraph demo_string_env (WFObject_read demo_string_env ''ex/A.obj'')))
   \<and> returned_text (WFObjectToStrings demo_string_env demo_process ''ex/A.obj'' True) =
       Some (concat (replicate 5 (''AB'' @ [newline] @ ''BA'' @ [newline])) @ ''AB'' @ [newline]
             @ concat (replicate 5 (''0 1'' @ [newline] @ ''1 0'' @ [newline])) @ ''0 1'')"
proof -
  let ?samples = "draws demo_string_env 11 (rng demo_process)
      (WFObject_read demo_string_env ''ex/A.obj'')
      (computeCollisionGraph demo_string_env (WFObject_read demo_string_env ''ex/A.obj''))"
  have conn: "isConnected demo_string_env
     (computeCollisionGraph demo_string_env (WFObject_read demo_string_env ''ex/A.obj''))"
    by code_simp
  have lines: "list_all (\<lambda>s. snd s \<noteq> [] \<and> last (snd s) = newline) ?samples"
    by code_simp
  then have lines': "\<forall>s\<in>set ?samples. snd s \<noteq> [] \<and> last (snd s) = newline"
    by (simp add: list_all_iff)
  have shown: "concat (map fst ?samples) @ butlast (concat (map snd ?samples))
      = concat (replicate 5 (''AB'' @ [newline] @ ''BA'' @ [newline])) @ ''AB'' @ [newline]
             @ concat (replicate 5 (''0 1'' @ [newline] @ ''1 0'' @ [newline])) @ ''0 1''"
    by code_simp
  from WFObjectToStrings_eleven_samples [OF conn refl lines', of True] conn lines shown
  show ?thesis
    by simp
qed

text \<open>
  C9. \<^verbatim>\<open>WFObjectRandomVariations\<close> installs its result without freeing the retained
  buffer. After \<^verbatim>\<open>WFObjectToString\<close> has retained block 1, a call of
  \<^verbatim>\<open>WFObjectRandomVariations\<close> leaves block 1 allocated beside the new block 2, to which
  \<^verbatim>\<open>outputString\<close> now points; a second call of \<^verbatim>\<open>WFObjectToString\<close> in its place leaves
  block 2 alone.
\<close>

theorem WFObjectRandomVariations_leaves_retained_buffer:
  "(case WFObjectToString demo_string_env demo_process ''ex/A.obj'' of (p1, st1) \<Rightarrow>
      case WFObjectRandomVariations demo_string_env st1 ''ex/A.obj'' ''ex/B.obj'' of (p2, st2) \<Rightarrow>
        p1 = HeapBlock 1 \<and> p2 = HeapBlock 2 \<and> outputString st2 = Some 2
        \<and> map fst (blocks st2) = [2, 1])
   \<and> (case WFObjectToString demo_string_env demo_process ''ex/A.obj'' of (p1, st1) \<Rightarrow>
      case WFObjectToString demo_string_env st1 ''ex/B.obj'' of (p2, st2) \<Rightarrow>
        p1 = HeapBlock 1 \<and> p2 = HeapBlock 2 \<and> outputString st2 = Some 2
        \<and> map fst (blocks st2) = [2])"
  by code_simp

subsection \<open>The round trip through the compact representation\<close>

lemma set_matrix_edges:
  "set (matrix_edges M n) = {(i, j). i < n \<and> j < n \<and> M ! (i * n + j) = 1}"
  by (auto simp: matrix_edges_def)

lemma numNodes_fromAdjacencyMatrix: "numNodes (fromAdjacencyMatrix M n) = n"
  by (simp add: numNodes_def fromAdjacencyMatrix_def offsets_def Let_def)

lemma zip_fromAdjacencyMatrix:
  "zip (adjacencyKeys (fromAdjacencyMatrix M n)) (adjacencyVals (fromAdjacencyMatrix M n))
     = map (\<lambda>e. (of_nat (fst e), of_nat (snd e))) (matrix_edges M n)"
  by (simp add: fromAdjacencyMatrix_def Let_def zip_map_map) (simp add: zip_same_conv_map)

lemma length_scatter: "length (fold (\<lambda>e M. M[pos e := v]) es M0) = length M0"
  by (induction es arbitrary: M0) simp_all

lemma nth_scatter:
  "k < length M0 \<Longrightarrow>
     fold (\<lambda>e M. M[pos e := v]) es M0 ! k = (if k \<in> pos ` set es then v else M0 ! k)"
proof (induction es arbitrary: M0)
  case Nil
  then show ?case by simp
next
  case (Cons e es)
  then have "k < length (M0[pos e := v])" by simp
  from Cons.IH [OF this] Cons.prems show ?case
    by (auto simp: nth_list_update)
qed

lemma unat_node_id:
  assumes "i < n" and "n \<le> 2 ^ 32"
  shows "unat (of_nat i :: u32) = i"
proof -
  from assms have "i < 2 ^ 32" by simp
  then show ?thesis
    by (simp add: unat_of_nat take_bit_nat_eq_self)
qed

lemma cell_of_edge:
  assumes "k < n * n"
  shows "k \<in> (\<lambda>e. fst e * n + snd e) ` set (matrix_edges M n) \<longleftrightarrow> M ! k = 1"
proof
  assume "k \<in> (\<lambda>e. fst e * n + snd e) ` set (matrix_edges M n)"
  then show "M ! k = 1"
    by (auto simp: set_matrix_edges)
next
  assume one: "M ! k = 1"
  from assms have n: "0 < n"
    by (cases n) auto
  have "k div n < n"
    using assms n by (simp add: less_mult_imp_div_less)
  moreover have "k mod n < n"
    using n by simp
  moreover have "k div n * n + k mod n = k"
    by simp
  ultimately have "(k div n, k mod n) \<in> set (matrix_edges M n)"
    using one by (simp add: set_matrix_edges)
  then have "(\<lambda>e. fst e * n + snd e) (k div n, k mod n)
      \<in> (\<lambda>e. fst e * n + snd e) ` set (matrix_edges M n)"
    by (rule imageI)
  then show "k \<in> (\<lambda>e. fst e * n + snd e) ` set (matrix_edges M n)"
    by simp
qed

lemma scatter_positions:
  assumes "n \<le> 2 ^ 32"
  shows "fold (\<lambda>e M. M[unat (fst e) * n + unat (snd e) := v])
           (map (\<lambda>e. (of_nat (fst e) :: u32, of_nat (snd e) :: u32)) (matrix_edges M n)) M0
       = fold (\<lambda>e M. M[fst e * n + snd e := v]) (matrix_edges M n) M0"
proof -
  have "fold (\<lambda>e M. M[unat (fst e) * n + unat (snd e) := v])
           (map (\<lambda>e. (of_nat (fst e) :: u32, of_nat (snd e) :: u32)) es) M0
       = fold (\<lambda>e M. M[fst e * n + snd e := v]) es M0"
    if "\<forall>e\<in>set es. fst e < n \<and> snd e < n" for es
    using that
  proof (induction es arbitrary: M0)
    case Nil
    then show ?case by simp
  next
    case (Cons e es)
    have "unat (of_nat (fst e) :: u32) = fst e"
      using Cons.prems by (intro unat_node_id [OF _ assms]) simp
    moreover have "unat (of_nat (snd e) :: u32) = snd e"
      using Cons.prems by (intro unat_node_id [OF _ assms]) simp
    ultimately show ?case
      using Cons by simp
  qed
  moreover have "\<forall>e\<in>set (matrix_edges M n). fst e < n \<and> snd e < n"
    by (auto simp: set_matrix_edges)
  ultimately show ?thesis by blast
qed

lemma round_trip_any:
  assumes len: "length M = n * n" and n: "n \<le> 2 ^ 32" and zo: "zero_one M"
  shows "toAdjacencyMatrix (fromAdjacencyMatrix M n) = (M, n)"
proof -
  let ?R = "fold (\<lambda>e M. M[fst e * n + snd e := 1]) (matrix_edges M n) (replicate (n * n) (0 :: u32))"
  have to: "toAdjacencyMatrix (fromAdjacencyMatrix M n) = (?R, n)"
    by (simp add: toAdjacencyMatrix_def Let_def numNodes_fromAdjacencyMatrix
        zip_fromAdjacencyMatrix scatter_positions [OF n])
  have "?R = M"
  proof (rule nth_equalityI)
    show "length ?R = length M"
      by (simp add: length_scatter len)
  next
    fix k
    assume "k < length ?R"
    then have k: "k < n * n"
      by (simp add: length_scatter)
    then have "?R ! k = (if M ! k = 1 then 1 else 0)"
      by (simp add: nth_scatter cell_of_edge)
    moreover have "M ! k = 0 \<or> M ! k = 1"
      using zo k len by (simp add: zero_one_def list_all_length)
    ultimately show "?R ! k = M ! k"
      by auto
  qed
  with to show ?thesis by simp
qed

subsection \<open>The test of the construction\<close>

lemma adjacencyMatrixHost_shape:
  "length (adjacencyMatrixHost rnd rand_max n) = n * n
   \<and> zero_one (adjacencyMatrixHost rnd rand_max n)"
proof -
  have step: "length (fold (\<lambda>(i, j) M.
             if 0 < rnd i j div rand_max then M[j * n + i := 1, i * n + j := 1] else M) ps M0)
        = length M0
      \<and> set (fold (\<lambda>(i, j) M.
             if 0 < rnd i j div rand_max then M[j * n + i := 1, i * n + j := 1] else M) ps M0)
        \<subseteq> insert 1 (set M0)"
    for ps :: "(nat \<times> nat) list" and M0 :: "u32 list"
  proof (induction ps arbitrary: M0)
    case Nil
    then show ?case by auto
  next
    case (Cons p ps)
    obtain i j where p: "p = (i, j)" by (cases p)
    let ?M1 = "if 0 < rnd i j div rand_max then M0[j * n + i := 1, i * n + j := 1] else M0"
    have "length ?M1 = length M0"
      by simp
    moreover have "set ?M1 \<subseteq> insert 1 (set M0)"
    proof (cases "0 < rnd i j div rand_max")
      case True
      have "set (M0[j * n + i := 1, i * n + j := 1]) \<subseteq> insert 1 (set (M0[j * n + i := 1]))"
        by (rule set_update_subset_insert)
      moreover have "set (M0[j * n + i := 1]) \<subseteq> insert 1 (set M0)"
        by (rule set_update_subset_insert)
      ultimately show ?thesis
        using True by auto
    next
      case False
      then show ?thesis by auto
    qed
    moreover from Cons.IH [of ?M1] have "length (fold (\<lambda>(i, j) M.
             if 0 < rnd i j div rand_max then M[j * n + i := 1, i * n + j := 1] else M) ps ?M1)
        = length ?M1
      \<and> set (fold (\<lambda>(i, j) M.
             if 0 < rnd i j div rand_max then M[j * n + i := 1, i * n + j := 1] else M) ps ?M1)
        \<subseteq> insert 1 (set ?M1)" .
    ultimately show ?case
      unfolding p by (simp only: fold_Cons comp_apply case_prod_conv) blast
  qed
  from step [of "concat (map (\<lambda>i. map (\<lambda>j. (i, j)) [0..<i]) [0..<n])" "replicate (n * n) 0"]
  show ?thesis
    by (auto simp: adjacencyMatrixHost_def zero_one_def list_all_iff)
qed

lemma testGraphConstruction_reports_nothing:
  assumes "0 \<le> aGraphSize" and "aGraphSize * aGraphSize < 2 ^ 31"
  shows "testGraphConstruction rnd rand_max aGraphSize = Some (0, [])"
proof -
  let ?n = "nat aGraphSize"
  have "aGraphSize \<le> aGraphSize * aGraphSize"
    using assms(1) by (cases "aGraphSize = 0") (simp_all add: mult_le_cancel_left1)
  with assms have "aGraphSize < 2 ^ 32"
    by simp
  with assms(1) have n: "?n \<le> 2 ^ 32"
    by simp
  from adjacencyMatrixHost_shape [of rnd rand_max ?n]
  have "toAdjacencyMatrix (fromAdjacencyMatrix (adjacencyMatrixHost rnd rand_max ?n) ?n)
      = (adjacencyMatrixHost rnd rand_max ?n, ?n)"
    by (intro round_trip_any n) simp_all
  with assms show ?thesis
    by (simp add: testGraphConstruction_def Let_def)
qed

subsection \<open>Claim about the graph\<close>

text \<open>
  C5. For every symmetric 0/1 adjacency matrix \<open>M\<close> of size \<open>n \<times> n\<close>,
  \<^verbatim>\<open>toAdjacencyMatrix(fromAdjacencyMatrix(M))\<close> is \<open>M\<close> again, with the size \<open>n\<close>. Node
  ids are \<^verbatim>\<open>unsigned int\<close>, so \<open>n\<close> is at most \<open>2 ^ 32\<close>.
\<close>

theorem adjacency_matrix_round_trip:
  assumes "length M = n * n" and "n \<le> 2 ^ 32" and "zero_one M" and "symmetric M n"
  shows "toAdjacencyMatrix (fromAdjacencyMatrix M n) = (M, n)"
  using assms(1-3) by (rule round_trip_any)

theorem adjacency_matrix_round_trip_witness:
  "length [0, 1, 0, 1, 0, 1, 0, 1, 0 :: u32] = 3 * 3 \<and> (3 :: nat) \<le> 2 ^ 32
   \<and> zero_one [0, 1, 0, 1, 0, 1, 0, 1, 0] \<and> symmetric [0, 1, 0, 1, 0, 1, 0, 1, 0] 3
   \<and> fromAdjacencyMatrix [0, 1, 0, 1, 0, 1, 0, 1, 0] 3
       = \<lparr>intervals = [0, 1, 3, 4], adjacencyKeys = [0, 1, 1, 2], adjacencyVals = [1, 0, 2, 1]\<rparr>
   \<and> toAdjacencyMatrix (fromAdjacencyMatrix [0, 1, 0, 1, 0, 1, 0, 1, 0] 3)
       = ([0, 1, 0, 1, 0, 1, 0, 1, 0], 3)"
proof -
  have l: "length [0, 1, 0, 1, 0, 1, 0, 1, 0 :: u32] = 3 * 3" by simp
  have n: "(3 :: nat) \<le> 2 ^ 32" by simp
  have z: "zero_one [0, 1, 0, 1, 0, 1, 0, 1, 0]" by code_simp
  have s: "symmetric [0, 1, 0, 1, 0, 1, 0, 1, 0] 3" by code_simp
  have g: "fromAdjacencyMatrix [0, 1, 0, 1, 0, 1, 0, 1, 0] 3
       = \<lparr>intervals = [0, 1, 3, 4], adjacencyKeys = [0, 1, 1, 2], adjacencyVals = [1, 0, 2, 1]\<rparr>"
    by code_simp
  from adjacency_matrix_round_trip [OF l n z s] l n z s g show ?thesis
    by simp
qed

subsection \<open>Labelling the edges of an exemplar\<close>

lemma length_label_edge: "length (label_edge g edgeTypes tr) = length edgeTypes"
  by (simp add: label_edge_def split: option.splits)

lemma length_label_edges: "length (label_edges g trs) = numEdges g"
proof -
  have "length (foldl (label_edge g) acc trs) = length acc" for acc
    by (induction trs arbitrary: acc) (simp_all add: length_label_edge)
  then show ?thesis
    by (simp add: label_edges_def)
qed

lemma matched_edge_less: "matched_edge g tr = Some e \<Longrightarrow> e < numEdges g"
proof -
  assume "matched_edge g tr = Some e"
  then have "e \<in> set [0..<numEdges g]"
    unfolding matched_edge_def by (auto simp: find_Some_iff)
  then show ?thesis by simp
qed

lemma nth_label_edge:
  assumes "length edgeTypes = numEdges g" and "e < numEdges g"
  shows "label_edge g edgeTypes tr ! e =
    (if matched_edge g tr = Some e then snd (snd tr) else edgeTypes ! e)"
proof (cases "matched_edge g tr")
  case None
  then show ?thesis
    by (simp add: label_edge_def matched_edge_def)
next
  case (Some e')
  then have "e' < numEdges g"
    by (rule matched_edge_less)
  with Some assms show ?thesis
    by (auto simp: label_edge_def matched_edge_def nth_list_update)
qed

lemma edge_label_snoc:
  "edge_label g (trs @ [tr]) e =
    (if matched_edge g tr = Some e then snd (snd tr) else edge_label g trs e)"
  by (simp add: edge_label_def)

lemma nth_label_edges:
  assumes "e < numEdges g"
  shows "label_edges g trs ! e = edge_label g trs e"
proof (induction trs rule: rev_induct)
  case Nil
  show ?case
    using assms by (simp add: label_edges_def edge_label_def)
next
  case (snoc tr trs)
  have "label_edges g (trs @ [tr]) = label_edge g (label_edges g trs) tr"
    by (simp add: label_edges_def)
  with snoc assms show ?case
    by (simp add: nth_label_edge length_label_edges edge_label_snoc)
qed

lemma label_edges_no_triples: "label_edges g [] = replicate (numEdges g) (- 1)"
  by (simp add: label_edges_def)

subsection \<open>Collecting the target graph\<close>

lemma Max_step:
  fixes m a b :: u32
  assumes "finite S"
  shows "Max (insert (max (max m a) b) S) = Max (insert m (insert a (insert b S)))"
proof (cases "S = {}")
  case True
  then show ?thesis
    by (simp add: max.assoc)
next
  case False
  with assms show ?thesis
    by (simp add: max.assoc)
qed

lemma target_loop:
  "foldl target_step (m, ks, vs, ts) trs =
     (Max (insert m (set (node_ids trs))),
      ks @ map fst trs, vs @ map (\<lambda>tr. fst (snd tr)) trs, ts @ map (\<lambda>tr. snd (snd tr)) trs)"
proof (induction trs arbitrary: m ks vs ts)
  case Nil
  then show ?case by (simp add: node_ids_def)
next
  case (Cons tr trs)
  have step: "foldl target_step (m, ks, vs, ts) (tr # trs) =
      foldl target_step
        (max (max m (fst tr)) (fst (snd tr)), ks @ [fst tr], vs @ [fst (snd tr)],
         ts @ [snd (snd tr)]) trs"
    by (simp add: target_step_def)
  have ids: "insert m (set (node_ids (tr # trs)))
      = insert m (insert (fst tr) (insert (fst (snd tr)) (set (node_ids trs))))"
    by (auto simp: node_ids_def)
  have M: "Max (insert (max (max m (fst tr)) (fst (snd tr))) (set (node_ids trs)))
      = Max (insert m (set (node_ids (tr # trs))))"
    unfolding ids by (rule Max_step) simp
  show ?case
    unfolding step Cons.IH M by simp
qed

lemma target_loop_start:
  "foldl target_step (0, [], [], []) trs =
     (max_referenced trs, map fst trs, map (\<lambda>tr. fst (snd tr)) trs, map (\<lambda>tr. snd (snd tr)) trs)"
  by (simp add: target_loop max_referenced_def)

subsection \<open>The nine lines\<close>

lemma encoded_triples_0:
  "encoded_triples 0 enc =
     read_triples (fst (getline enc)) (fst (getline (snd (getline enc))))
       (fst (getline (snd (getline (snd (getline enc))))))"
  by (simp add: encoded_triples_def eval_nat_numeral)

lemma encoded_line_shift:
  "encoded_line (n + 3) enc = encoded_line n (snd (getline (snd (getline (snd (getline enc))))))"
proof -
  have "n + 3 = Suc (Suc (Suc n))" by simp
  then show ?thesis
    by (simp only: encoded_line.simps)
qed

lemma encoded_triples_Suc:
  "encoded_triples (Suc k) enc =
     encoded_triples k (snd (getline (snd (getline (snd (getline enc))))))"
proof -
  have "3 * Suc k = 3 * k + 3" "3 * Suc k + 1 = (3 * k + 1) + 3" "3 * Suc k + 2 = (3 * k + 2) + 3"
    by simp_all
  then show ?thesis
    unfolding encoded_triples_def by (simp only: encoded_line_shift)
qed

lemma StringToWFObject_stages:
  "StringToWFObject K aFileName1 aFileName2 aInputString aOutFileName =
     (let obj1 = WFObject_read K aFileName1;
          obj2 = WFObject_read K aFileName2;
          graph1 = computeCollisionGraph K obj1;
          graph2 = computeCollisionGraph K obj2;
          labels1 = label_edges graph1 (encoded_triples 0 aInputString);
          labels2 = label_edges graph2 (encoded_triples 1 aInputString);
          trs = encoded_triples 2 aInputString;
          target =
            fromAdjacencyList
              \<lparr>intervals = [], adjacencyKeys = map fst trs,
                 adjacencyVals = map (\<lambda>tr. fst (snd tr)) trs\<rparr>
              (unat (max_referenced trs + 1)) False;
          labels3 = map (\<lambda>tr. snd (snd tr)) trs
      in \<lparr>gen_status = 0,
          gen_written =
            [(aOutFileName,
              WFObjectGenerator K obj1 obj2 graph1 graph2 target labels1 labels2 labels3)],
          edgeTypes1 = labels1, edgeTypes2 = labels2, graph3 = target,
          edgeTypes3Host = labels3\<rparr>)"
proof -
  have two: "(2 :: nat) = Suc (Suc 0)" and one: "(1 :: nat) = Suc 0"
    by simp_all
  show ?thesis
    unfolding two one encoded_triples_Suc encoded_triples_0
    by (simp add: StringToWFObject_def Let_def split_beta target_loop_start)
qed


lemma edge_label_unmatched:
  assumes "\<forall>tr\<in>set trs. matched_edge g tr \<noteq> Some e"
  shows "edge_label g trs e = - 1"
proof -
  have "filter (\<lambda>tr. matched_edge g tr = Some e) (rev trs) = []"
    using assms by (simp add: filter_empty_conv)
  then show ?thesis
    by (simp add: edge_label_def)
qed

lemma edge_label_matched:
  assumes "tr \<in> set trs" and "matched_edge g tr = Some e"
  shows "\<exists>tr'\<in>set trs. matched_edge g tr' = Some e \<and> edge_label g trs e = snd (snd tr')"
proof -
  from assms have "tr \<in> set (filter (\<lambda>tr. matched_edge g tr = Some e) (rev trs))"
    by simp
  then obtain tr' rest where f: "filter (\<lambda>tr. matched_edge g tr = Some e) (rev trs) = tr' # rest"
    by (cases "filter (\<lambda>tr. matched_edge g tr = Some e) (rev trs)") auto
  then have "tr' \<in> set (filter (\<lambda>tr. matched_edge g tr = Some e) (rev trs))"
    by simp
  then have "tr' \<in> set trs" "matched_edge g tr' = Some e"
    by simp_all
  moreover have "edge_label g trs e = snd (snd tr')"
    by (simp add: edge_label_def f)
  ultimately show ?thesis by blast
qed

lemma max_referenced_upper: "tr \<in> set trs \<Longrightarrow> fst tr \<le> max_referenced trs \<and> fst (snd tr) \<le> max_referenced trs"
  by (simp add: max_referenced_def node_ids_def)

lemma read_uint_empty: "read_uint [] = None"
  by (simp add: read_uint_def)

lemma encoded_line_no_break:
  assumes "newline \<notin> set enc"
  shows "encoded_line (Suc k) enc = []"
proof -
  have d: "dropWhile (\<lambda>c. c \<noteq> newline) enc = []"
    using assms by (induction enc) auto
  have rest: "snd (getline enc) = []"
    by (simp add: getline_def d)
  have "encoded_line k [] = []" for k
    by (induction k) (simp_all add: getline_def)
  with rest show ?thesis by simp
qed

lemma encoded_triples_no_break:
  assumes "newline \<notin> set enc"
  shows "encoded_triples k enc = []"
proof -
  have "encoded_line (Suc (3 * k)) enc = []"
    by (rule encoded_line_no_break [OF assms])
  then have "encoded_line (3 * k + 1) enc = []"
    by simp
  then show ?thesis
    by (simp add: encoded_triples_def read_triples.simps [of _ "[]"] read_uint_empty
        split: option.splits)
qed

lemma unat_plus_one:
  fixes m :: u32
  shows "unat (m + 1) = (if m = - 1 then 0 else unat m + 1)"
proof (cases "m = - 1")
  case True
  then show ?thesis by simp
next
  case False
  have "unat m < 2 ^ LENGTH(32)"
    by (rule unsigned_less)
  moreover have "unat m \<noteq> unat (- 1 :: u32)"
    using False word_unat_eq_iff by blast
  moreover have "unat (- 1 :: u32) = 4294967295"
    by (simp add: unsigned_minus_1_eq_mask mask_eq_exp_minus_1)
  ultimately have "unat m + unat (1 :: u32) < 2 ^ LENGTH(32)"
    by simp
  then have "unat (m + 1) = unat m + unat (1 :: u32)"
    by (simp only: unat_add_lem)
  with False show ?thesis
    by simp
qed

lemma numNodes_fromAdjacencyList: "numNodes (fromAdjacencyList g nodeCount directed) = nodeCount"
  by (simp add: numNodes_def fromAdjacencyList_def offsets_def Let_def)

subsection \<open>Claims about \<^verbatim>\<open>StringToWFObject\<close>\<close>

text \<open>
  C7, as the specification states it, gives the target graph one plus the largest
  node id of the third group as its node count. The sum \<^verbatim>\<open>max_node_id + 1\<close> is taken in
  \<^verbatim>\<open>unsigned int\<close>: for a group that names the node id 4294967295 the constructor is
  called with the node count 0.
\<close>

theorem StringToWFObject_node_count_wraps:
  "encoded_triples 2 demo_wrap_encoded = [(4294967295, 0, 7)]
   \<and> max_referenced (encoded_triples 2 demo_wrap_encoded) = 4294967295
   \<and> graph3 (StringToWFObject demo_generator_env ''ex/A.obj'' ''ex/B.obj'' demo_wrap_encoded
         ''out.obj'')
     = fromAdjacencyList
         \<lparr>intervals = [], adjacencyKeys = [4294967295], adjacencyVals = [0]\<rparr> 0 False
   \<and> numNodes (graph3 (StringToWFObject demo_generator_env ''ex/A.obj'' ''ex/B.obj''
         demo_wrap_encoded ''out.obj'')) = 0"
proof -
  have trs: "encoded_triples 2 demo_wrap_encoded = [(4294967295, 0, 7)]"
    by code_simp
  have m: "max_referenced [(4294967295, 0, 7)] = 4294967295"
    by (simp add: max_referenced_def node_ids_def)
  have g: "graph3 (StringToWFObject demo_generator_env ''ex/A.obj'' ''ex/B.obj''
         demo_wrap_encoded ''out.obj'')
     = fromAdjacencyList
         \<lparr>intervals = [], adjacencyKeys = [4294967295], adjacencyVals = [0]\<rparr> 0 False"
    by (simp add: StringToWFObject_stages Let_def trs m)
  show ?thesis
    by (simp add: trs m g numNodes_fromAdjacencyList)
qed

text \<open>
  C7, amended. \<^verbatim>\<open>StringToWFObject\<close> reads the encoded text as 9 lines in three groups
  of three. For each exemplar, every triple of its group is matched by the linear scan
  against the exemplar's edge list: an edge carries the label of the (last) triple
  matched to it, and the sentinel \<^verbatim>\<open>(unsigned)-1\<close> when no triple is. The target graph is
  built by the adjacency-list constructor, undirected, from the endpoints of the third
  group. Its node count is one plus the largest node id of the group when that id is
  below 4294967295, and 0 when it is 4294967295 (the sum is taken in 32 bits); a group
  without a triple gives the node count 1. The generator receives the three graphs and
  the three label vectors.
\<close>

theorem StringToWFObject_labels_and_target:
  assumes "r = StringToWFObject K aFileName1 aFileName2 enc aOutFileName"
    and "graph1 = computeCollisionGraph K (WFObject_read K aFileName1)"
    and "graph2 = computeCollisionGraph K (WFObject_read K aFileName2)"
    and "trs = encoded_triples 2 enc"
    and "nodeCount =
          (if max_referenced trs = - 1 then 0 else unat (max_referenced trs) + 1)"
  shows "length (edgeTypes1 r) = numEdges graph1
    \<and> (\<forall>e<numEdges graph1. edgeTypes1 r ! e = edge_label graph1 (encoded_triples 0 enc) e)
    \<and> length (edgeTypes2 r) = numEdges graph2
    \<and> (\<forall>e<numEdges graph2. edgeTypes2 r ! e = edge_label graph2 (encoded_triples 1 enc) e)
    \<and> graph3 r =
        fromAdjacencyList
          \<lparr>intervals = [], adjacencyKeys = map fst trs,
             adjacencyVals = map (\<lambda>tr. fst (snd tr)) trs\<rparr>
          nodeCount False
    \<and> numNodes (graph3 r) = nodeCount
    \<and> edgeTypes3Host r = map (\<lambda>tr. snd (snd tr)) trs
    \<and> gen_written r =
        [(aOutFileName,
          WFObjectGenerator K (WFObject_read K aFileName1) (WFObject_read K aFileName2)
            graph1 graph2 (graph3 r) (edgeTypes1 r) (edgeTypes2 r) (edgeTypes3Host r))]"
proof -
  have count: "unat (max_referenced trs + 1) = nodeCount"
    by (simp only: assms(5) unat_plus_one)
  show ?thesis
    unfolding assms(1-4)
    by (simp add: StringToWFObject_stages Let_def length_label_edges nth_label_edges
        count [unfolded assms(4)] numNodes_fromAdjacencyList)
qed

theorem StringToWFObject_labels_and_target_witness:
  "StringToWFObject demo_generator_env ''ex/A.obj'' ''ex/B.obj'' demo_encoded ''out.obj''
     = \<lparr>gen_status = 0, gen_written = [(''out.obj'', demo_object 2 3 7134)],
         edgeTypes1 = [7, 9], edgeTypes2 = [5, - 1],
         graph3 = \<lparr>intervals = [0, 1, 3, 4], adjacencyKeys = [0, 1, 1, 2],
                    adjacencyVals = [1, 2, 0, 1]\<rparr>,
         edgeTypes3Host = [3, 4]\<rparr>
   \<and> numEdges (computeCollisionGraph demo_generator_env
                  (WFObject_read demo_generator_env ''ex/B.obj'')) = 2
   \<and> edge_label (computeCollisionGraph demo_generator_env
                    (WFObject_read demo_generator_env ''ex/B.obj''))
        (encoded_triples 1 demo_encoded) 0 = 5
   \<and> edge_label (computeCollisionGraph demo_generator_env
                    (WFObject_read demo_generator_env ''ex/B.obj''))
        (encoded_triples 1 demo_encoded) 1 = - 1
   \<and> encoded_triples 2 demo_encoded = [(0, 1, 3), (1, 2, 4)]
   \<and> max_referenced (encoded_triples 2 demo_encoded) = 2
   \<and> numNodes (graph3 (StringToWFObject demo_generator_env ''ex/A.obj'' ''ex/B.obj''
         demo_encoded ''out.obj'')) = 3"
proof -
  let ?g2 = "computeCollisionGraph demo_generator_env
      (WFObject_read demo_generator_env ''ex/B.obj'')"
  have run: "StringToWFObject demo_generator_env ''ex/A.obj'' ''ex/B.obj'' demo_encoded ''out.obj''
     = \<lparr>gen_status = 0, gen_written = [(''out.obj'', demo_object 2 3 7134)],
         edgeTypes1 = [7, 9], edgeTypes2 = [5, - 1],
         graph3 = \<lparr>intervals = [0, 1, 3, 4], adjacencyKeys = [0, 1, 1, 2],
                    adjacencyVals = [1, 2, 0, 1]\<rparr>,
         edgeTypes3Host = [3, 4]\<rparr>"
    by code_simp
  have n: "numEdges ?g2 = 2"
    by code_simp
  have trs: "encoded_triples 2 demo_encoded = [(0, 1, 3), (1, 2, 4)]"
    by code_simp
  have m: "max_referenced [(0, 1, 3), (1, 2, 4)] = 2"
    by (simp add: max_referenced_def node_ids_def)
  let ?r = "StringToWFObject demo_generator_env ''ex/A.obj'' ''ex/B.obj'' demo_encoded ''out.obj''"
  note facts = StringToWFObject_labels_and_target [OF refl refl refl refl refl,
      of demo_generator_env "''ex/A.obj''" "''ex/B.obj''" demo_encoded "''out.obj''"]
  from facts have "numNodes (graph3 ?r) =
      (if max_referenced (encoded_triples 2 demo_encoded) = - 1 then 0
       else unat (max_referenced (encoded_triples 2 demo_encoded)) + 1)"
    by blast
  then have count: "numNodes (graph3 ?r) = 3"
    by (simp add: trs m)
  from facts
  have labels: "\<forall>e<numEdges ?g2. edgeTypes2 ?r ! e = edge_label ?g2 (encoded_triples 1 demo_encoded) e"
    by blast
  have "edgeTypes2 ?r ! 0 = edge_label ?g2 (encoded_triples 1 demo_encoded) 0"
    by (rule labels [rule_format]) (simp add: n)
  moreover have "edgeTypes2 ?r ! 1 = edge_label ?g2 (encoded_triples 1 demo_encoded) 1"
    by (rule labels [rule_format]) (simp add: n)
  ultimately have "edge_label ?g2 (encoded_triples 1 demo_encoded) 0 = 5"
    and "edge_label ?g2 (encoded_triples 1 demo_encoded) 1 = - 1"
    by (simp_all add: run)
  with run n trs m count show ?thesis
    by simp
qed

text \<open>
  C10. \<^verbatim>\<open>StringToWFObject\<close> returns status 0 for every encoded text, and the one file
  it writes, at \<^verbatim>\<open>aOutFileName\<close>, is in every case the object that \<^verbatim>\<open>WFObjectGenerator\<close>
  returns for the two exemplars, their graphs, the graph built from the triples of the
  third group and the three label vectors. For a text without a parseable triple these
  arguments are the graph that the constructor builds from empty edge lists with node
  count 1, a sentinel for every edge of either exemplar, and an empty label vector.
\<close>

theorem StringToWFObject_status_zero:
  "gen_status (StringToWFObject K aFileName1 aFileName2 enc aOutFileName) = 0
   \<and> gen_written (StringToWFObject K aFileName1 aFileName2 enc aOutFileName)
       = [(aOutFileName,
           WFObjectGenerator K (WFObject_read K aFileName1) (WFObject_read K aFileName2)
             (computeCollisionGraph K (WFObject_read K aFileName1))
             (computeCollisionGraph K (WFObject_read K aFileName2))
             (fromAdjacencyList
                \<lparr>intervals = [], adjacencyKeys = map fst (encoded_triples 2 enc),
                   adjacencyVals = map (\<lambda>tr. fst (snd tr)) (encoded_triples 2 enc)\<rparr>
                (unat (max_referenced (encoded_triples 2 enc) + 1)) False)
             (label_edges (computeCollisionGraph K (WFObject_read K aFileName1))
                (encoded_triples 0 enc))
             (label_edges (computeCollisionGraph K (WFObject_read K aFileName2))
                (encoded_triples 1 enc))
             (map (\<lambda>tr. snd (snd tr)) (encoded_triples 2 enc)))]
   \<and> (encoded_triples 0 enc = [] \<and> encoded_triples 1 enc = [] \<and> encoded_triples 2 enc = []
        \<longrightarrow>
        gen_written (StringToWFObject K aFileName1 aFileName2 enc aOutFileName)
          = [(aOutFileName,
              WFObjectGenerator K (WFObject_read K aFileName1) (WFObject_read K aFileName2)
                (computeCollisionGraph K (WFObject_read K aFileName1))
                (computeCollisionGraph K (WFObject_read K aFileName2))
                (fromAdjacencyList
                   \<lparr>intervals = [], adjacencyKeys = [], adjacencyVals = []\<rparr> 1 False)
                (replicate (numEdges (computeCollisionGraph K (WFObject_read K aFileName1)))
                   (- 1))
                (replicate (numEdges (computeCollisionGraph K (WFObject_read K aFileName2)))
                   (- 1))
                [])])
   \<and> (newline \<notin> set enc \<longrightarrow>
        encoded_triples 0 enc = [] \<and> encoded_triples 1 enc = [] \<and> encoded_triples 2 enc = [])"
  by (simp add: StringToWFObject_stages Let_def label_edges_no_triples max_referenced_def
      node_ids_def encoded_triples_no_break)

theorem StringToWFObject_status_zero_witness:
  "newline \<notin> set ''0 1 2''
   \<and> encoded_triples 0 ''0 1 2'' = [] \<and> encoded_triples 1 ''0 1 2'' = []
   \<and> encoded_triples 2 ''0 1 2'' = []
   \<and> gen_status (StringToWFObject demo_generator_env ''ex/A.obj'' ''ex/B.obj'' ''0 1 2''
         ''out.obj'') = 0
   \<and> gen_written (StringToWFObject demo_generator_env ''ex/A.obj'' ''ex/B.obj'' ''0 1 2''
         ''out.obj'')
       = [(''out.obj'',
           demo_generate (demo_object 2 3 0) (demo_object 2 3 0)
             (demo_collision_graph (demo_object 2 3 0)) (demo_collision_graph (demo_object 2 3 0))
             \<lparr>intervals = [0, 0], adjacencyKeys = [], adjacencyVals = []\<rparr>
             [- 1, - 1] [- 1, - 1] [])]
   \<and> demo_generate (demo_object 2 3 0) (demo_object 2 3 0)
         (demo_collision_graph (demo_object 2 3 0)) (demo_collision_graph (demo_object 2 3 0))
         \<lparr>intervals = [0, 0], adjacencyKeys = [], adjacencyVals = []\<rparr>
         [- 1, - 1] [- 1, - 1] [] = demo_object 2 3 5410"
proof -
  have nobreak: "newline \<notin> set ''0 1 2''"
    by code_simp
  have objs: "WFObject_read demo_generator_env ''ex/A.obj'' = demo_object 2 3 0"
    "WFObject_read demo_generator_env ''ex/B.obj'' = demo_object 2 3 0"
    by code_simp+
  have env: "computeCollisionGraph demo_generator_env = demo_collision_graph"
    "WFObjectGenerator demo_generator_env = demo_generate"
    by (simp_all add: demo_generator_env_def)
  have n: "replicate (numEdges (demo_collision_graph (demo_object 2 3 0))) (- 1 :: u32)
      = [- 1, - 1]"
    by code_simp
  have g: "fromAdjacencyList \<lparr>intervals = [], adjacencyKeys = [], adjacencyVals = []\<rparr> 1 False
      = \<lparr>intervals = [0, 0], adjacencyKeys = [], adjacencyVals = []\<rparr>"
    by code_simp
  have v: "demo_generate (demo_object 2 3 0) (demo_object 2 3 0)
         (demo_collision_graph (demo_object 2 3 0)) (demo_collision_graph (demo_object 2 3 0))
         \<lparr>intervals = [0, 0], adjacencyKeys = [], adjacencyVals = []\<rparr>
         [- 1, - 1] [- 1, - 1] [] = demo_object 2 3 5410"
    by code_simp
  note claim = StringToWFObject_status_zero
         [of demo_generator_env "''ex/A.obj''" "''ex/B.obj''" "''0 1 2''" "''out.obj''"]
  from claim nobreak have none: "encoded_triples 0 ''0 1 2'' = []"
    "encoded_triples 1 ''0 1 2'' = []" "encoded_triples 2 ''0 1 2'' = []"
    by blast+
  from claim none have "gen_written (StringToWFObject demo_generator_env ''ex/A.obj''
        ''ex/B.obj'' ''0 1 2'' ''out.obj'')
      = [(''out.obj'',
          demo_generate (demo_object 2 3 0) (demo_object 2 3 0)
            (demo_collision_graph (demo_object 2 3 0)) (demo_collision_graph (demo_object 2 3 0))
            \<lparr>intervals = [0, 0], adjacencyKeys = [], adjacencyVals = []\<rparr>
            [- 1, - 1] [- 1, - 1] [])]"
    unfolding objs env n g by blast
  moreover from claim have "gen_status (StringToWFObject demo_generator_env ''ex/A.obj''
        ''ex/B.obj'' ''0 1 2'' ''out.obj'') = 0"
    by blast
  ultimately show ?thesis
    using nobreak none v by simp
qed

end
